theory Spec2Isabelle
  imports Main "HOL-Library.Word"
begin

section \<open>Go types as seen through package reflect\<close>

text \<open>
  The source file \<^verbatim>\<open>redis/scan.go\<close> binds decoded reply values to Go variables through
  package \<^verbatim>\<open>reflect\<close>. The embedding keeps what the code inspects of a type: its kind, the
  width of a numeric kind, the element type of a slice or pointer, and the declared fields
  of a struct.
\<close>

datatype kind =
    KInvalid | KBool | KInt | KInt8 | KInt16 | KInt32 | KInt64
  | KUint | KUint8 | KUint16 | KUint32 | KUint64 | KUintptr
  | KFloat32 | KFloat64 | KComplex64 | KComplex128
  | KArray | KChan | KFunc | KInterface | KMap | KPtr | KSlice | KString | KStruct | KUnsafePointer

text \<open>
  \<open>Basic k\<close> is the predeclared type of a scalar kind (\<^verbatim>\<open>bool\<close>, \<^verbatim>\<open>int\<close>, ..., \<^verbatim>\<open>string\<close>),
  \<open>Defined n k\<close> a defined type \<^verbatim>\<open>type n T\<close> over such a scalar (\<^verbatim>\<open>redis.Error\<close> is
  \<open>Defined ''redis.Error'' KString\<close>), \<open>Opaque n k\<close> a type of a kind this package never
  converts into (maps, channels, functions, arrays, ...). A struct field carries what
  \<^verbatim>\<open>reflect.StructField\<close> gives: \<^verbatim>\<open>Name\<close>, \<^verbatim>\<open>PkgPath\<close> (empty for an exported field),
  \<^verbatim>\<open>Anonymous\<close>, \<^verbatim>\<open>Type\<close>, and the value of \<^verbatim>\<open>Tag.Get("redis")\<close>.
\<close>

datatype gotype =
    Basic kind
  | Defined string kind
  | SliceOf gotype
  | PtrTo gotype
  | EmptyInterface
  | StructOf string "field list"
  | Opaque string kind
and field =
    Field (fName: string) (fPkgPath: string) (fAnonymous: bool) (fType: gotype) (fTag: string)

fun Kind :: "gotype \<Rightarrow> kind" where
  "Kind (Basic k) = k"
| "Kind (Defined n k) = k"
| "Kind (SliceOf t) = KSlice"
| "Kind (PtrTo t) = KPtr"
| "Kind EmptyInterface = KInterface"
| "Kind (StructOf n fs) = KStruct"
| "Kind (Opaque n k) = k"

fun Elem :: "gotype \<Rightarrow> gotype" where
  "Elem (SliceOf t) = t"
| "Elem (PtrTo t) = t"
| "Elem t = t"

definition is_int_kind :: "kind \<Rightarrow> bool" where
  "is_int_kind k = (k = KInt \<or> k = KInt8 \<or> k = KInt16 \<or> k = KInt32 \<or> k = KInt64)"

definition is_uint_kind :: "kind \<Rightarrow> bool" where
  "is_uint_kind k = (k = KUint \<or> k = KUint8 \<or> k = KUint16 \<or> k = KUint32 \<or> k = KUint64)"

definition is_float_kind :: "kind \<Rightarrow> bool" where
  "is_float_kind k = (k = KFloat32 \<or> k = KFloat64)"

abbreviation stringT :: gotype where "stringT \<equiv> Basic KString"
abbreviation intT :: gotype where "intT \<equiv> Basic KInt"
abbreviation int64T :: gotype where "int64T \<equiv> Basic KInt64"
abbreviation boolT :: gotype where "boolT \<equiv> Basic KBool"
abbreviation bytesT :: gotype where "bytesT \<equiv> SliceOf (Basic KUint8)"
abbreviation ifacesT :: gotype where "ifacesT \<equiv> SliceOf EmptyInterface"
abbreviation ErrorT :: gotype where "ErrorT \<equiv> Defined ''redis.Error'' KString"

section \<open>Go values, interface values and the store\<close>

text \<open>
  A floating-point value: sign, mantissa and binary exponent, or an infinity, or NaN.
  The code never computes with one; it only stores what \<^verbatim>\<open>strconv.ParseFloat\<close> returns.
\<close>

datatype gofloat = Finite bool nat int | Inf bool | NaN

text \<open>
  \<open>goval\<close> is the content of a variable; its type is carried by whoever points at it, as
  in Go. A slice \<open>VSlice xs n\<close> is taken by value: \<open>xs\<close> is the backing store from the
  slice's first element up to its capacity and \<open>n\<close> its length; each slice owns its backing
  store, two slices over one array are not represented. \<open>iface\<close> is a Go
  \<^verbatim>\<open>interface{}\<close>: \<open>Null\<close> is the nil interface; \<open>Bulk\<close>, \<open>Integer\<close>, \<open>Multi\<close> and
  \<open>Error\<close> are the dynamic types \<^verbatim>\<open>[]byte\<close>, \<^verbatim>\<open>int64\<close>, \<^verbatim>\<open>[]interface{}\<close> and
  \<^verbatim>\<open>redis.Error\<close> that the type switches of the source name; \<open>Dyn t v\<close> is a value of
  any other dynamic type \<open>t\<close>, a pointer \<^verbatim>\<open>*T\<close> being \<open>Dyn (PtrTo T) (VPtr p)\<close>.
\<close>

datatype goval =
    VBool bool
  | VInt int
  | VUint nat
  | VFloat gofloat
  | VString string
  | VSlice "goval list" nat
  | VStruct "goval list"
  | VPtr "nat option"
  | VIface iface
  | VOpaque
and iface =
    Null
  | Bulk string
  | Integer "64 word"
  | Multi "iface list"
  | Error string
  | Dyn gotype goval

type_synonym store = "nat \<Rightarrow> goval"

text \<open>\<^verbatim>\<open>reflect.TypeOf\<close>: the dynamic type of an interface value, none for nil.\<close>

fun TypeOf :: "iface \<Rightarrow> gotype option" where
  "TypeOf Null = None"
| "TypeOf (Bulk b) = Some bytesT"
| "TypeOf (Integer n) = Some int64T"
| "TypeOf (Multi xs) = Some ifacesT"
| "TypeOf (Error e) = Some ErrorT"
| "TypeOf (Dyn t v) = Some t"

text \<open>
  An addressable \<^verbatim>\<open>reflect.Value\<close>: its type and where it lives, the variable at
  \<open>raddr\<close> and the path of field and element indices inside it.
\<close>

record rvalue =
  rtype :: gotype
  raddr :: nat
  rpath :: "nat list"

fun child :: "goval \<Rightarrow> nat \<Rightarrow> goval" where
  "child (VStruct fs) i = fs ! i"
| "child (VSlice xs n) i = xs ! i"
| "child v i = v"

fun set_child :: "goval \<Rightarrow> nat \<Rightarrow> goval \<Rightarrow> goval" where
  "set_child (VStruct fs) i x = VStruct (fs[i := x])"
| "set_child (VSlice xs n) i x = VSlice (xs[i := x]) n"
| "set_child v i x = v"

fun get_at :: "goval \<Rightarrow> nat list \<Rightarrow> goval" where
  "get_at v [] = v"
| "get_at v (i # p) = get_at (child v i) p"

fun set_at :: "goval \<Rightarrow> nat list \<Rightarrow> goval \<Rightarrow> goval" where
  "set_at v [] x = x"
| "set_at v (i # p) x = set_child v i (set_at (child v i) p x)"

definition load :: "store \<Rightarrow> rvalue \<Rightarrow> goval" where
  "load \<sigma> d = get_at (\<sigma> (raddr d)) (rpath d)"

definition store_at :: "store \<Rightarrow> rvalue \<Rightarrow> goval \<Rightarrow> store" where
  "store_at \<sigma> d x = \<sigma>(raddr d := set_at (\<sigma> (raddr d)) (rpath d) x)"

text \<open>The path of \<open>d\<close> leads to a field or element that exists in the variable.\<close>

fun path_ok :: "goval \<Rightarrow> nat list \<Rightarrow> bool" where
  "path_ok v [] = True"
| "path_ok (VStruct fs) (i # p) = (i < length fs \<and> path_ok (fs ! i) p)"
| "path_ok (VSlice xs n) (i # p) = (i < length xs \<and> path_ok (xs ! i) p)"
| "path_ok v (i # p) = False"

definition addressable :: "store \<Rightarrow> rvalue \<Rightarrow> bool" where
  "addressable \<sigma> d = path_ok (\<sigma> (raddr d)) (rpath d)"

section \<open>Errors, panics and what the platform supplies\<close>

datatype error =
    ErrRange
  | ErrSyntax
  | NumError string string error
  | CannotConvert "gotype option" gotype
  | ScanShort
  | ScanStructPointer
  | ScanStructOdd
  | ScanStructKey
  | AppendStructNil
  | AppendStructKind
  | ReplyError string

datatype panic =
    NilDereference
  | ZeroValueType
  | NumFieldOfNonStruct
  | UnknownFieldFlag string string

text \<open>
  The width of \<^verbatim>\<open>int\<close> and \<^verbatim>\<open>uint\<close>, and the functions of package \<^verbatim>\<open>strconv\<close> the source
  calls, are not part of the repository: they are parameters. \<^verbatim>\<open>ParseInt\<close> and
  \<^verbatim>\<open>ParseUint\<close> take the text, the base and the bit size and return an \<^verbatim>\<open>int64\<close> or
  \<^verbatim>\<open>uint64\<close>; \<^verbatim>\<open>Atoi\<close> returns an \<^verbatim>\<open>int\<close>.
\<close>

datatype arch = Arch32 | Arch64

record platform =
  arch :: arch
  ParseFloat :: "string \<Rightarrow> nat \<Rightarrow> gofloat \<times> error option"
  ParseInt :: "string \<Rightarrow> nat \<Rightarrow> nat \<Rightarrow> 64 word \<times> error option"
  ParseUint :: "string \<Rightarrow> nat \<Rightarrow> nat \<Rightarrow> 64 word \<times> error option"
  ParseBool :: "string \<Rightarrow> bool \<times> error option"
  Atoi :: "string \<Rightarrow> int \<times> error option"

definition IntSize :: "platform \<Rightarrow> nat" where
  "IntSize P = (case arch P of Arch32 \<Rightarrow> 32 | Arch64 \<Rightarrow> 64)"

text \<open>\<^verbatim>\<open>Type.Bits\<close> for the numeric kinds (it is called on no other kind).\<close>

definition Bits :: "platform \<Rightarrow> kind \<Rightarrow> nat" where
  "Bits P k =
    (if k = KInt \<or> k = KUint \<or> k = KUintptr then IntSize P
     else if k = KInt8 \<or> k = KUint8 then 8
     else if k = KInt16 \<or> k = KUint16 then 16
     else if k = KInt32 \<or> k = KUint32 \<or> k = KFloat32 then 32
     else if k = KInt64 \<or> k = KUint64 \<or> k = KFloat64 then 64
     else 0)"

section \<open>Setters and getters of reflect.Value\<close>

text \<open>
  \<^verbatim>\<open>SetInt\<close> and \<^verbatim>\<open>SetUint\<close> convert the 64-bit argument to the width of the destination,
  which keeps the low bits; \<^verbatim>\<open>Int\<close> and \<^verbatim>\<open>Uint\<close> read the stored value back as 64 bits.
\<close>

definition SetInt :: "platform \<Rightarrow> rvalue \<Rightarrow> 64 word \<Rightarrow> store \<Rightarrow> store" where
  "SetInt P d x \<sigma> =
     store_at \<sigma> d (VInt (signed_take_bit (Bits P (Kind (rtype d)) - 1) (sint x)))"

definition SetUint :: "platform \<Rightarrow> rvalue \<Rightarrow> 64 word \<Rightarrow> store \<Rightarrow> store" where
  "SetUint P d x \<sigma> =
     store_at \<sigma> d (VUint (take_bit (Bits P (Kind (rtype d))) (unat x)))"

definition SetFloat :: "rvalue \<Rightarrow> gofloat \<Rightarrow> store \<Rightarrow> store" where
  "SetFloat d x \<sigma> = store_at \<sigma> d (VFloat x)"

definition SetBool :: "rvalue \<Rightarrow> bool \<Rightarrow> store \<Rightarrow> store" where
  "SetBool d x \<sigma> = store_at \<sigma> d (VBool x)"

definition SetString :: "rvalue \<Rightarrow> string \<Rightarrow> store \<Rightarrow> store" where
  "SetString d x \<sigma> = store_at \<sigma> d (VString x)"

definition bytes_val :: "string \<Rightarrow> goval" where
  "bytes_val s = VSlice (map (\<lambda>c. VUint (of_char c)) s) (length s)"

definition SetBytes :: "rvalue \<Rightarrow> string \<Rightarrow> store \<Rightarrow> store" where
  "SetBytes d x \<sigma> = store_at \<sigma> d (bytes_val x)"

definition Int_of :: "store \<Rightarrow> rvalue \<Rightarrow> 64 word" where
  "Int_of \<sigma> d = (case load \<sigma> d of VInt i \<Rightarrow> word_of_int i | _ \<Rightarrow> 0)"

definition Uint_of :: "store \<Rightarrow> rvalue \<Rightarrow> 64 word" where
  "Uint_of \<sigma> d = (case load \<sigma> d of VUint n \<Rightarrow> word_of_nat n | _ \<Rightarrow> 0)"

section \<open>Scalar conversion\<close>

definition cannotConvert :: "gotype \<Rightarrow> iface \<Rightarrow> error" where
  "cannotConvert t s = CannotConvert (TypeOf s) t"

definition convertAssignBytes ::
  "platform \<Rightarrow> rvalue \<Rightarrow> string \<Rightarrow> store \<Rightarrow> error option \<times> store" where
  "convertAssignBytes P d s \<sigma> =
    (let k = Kind (rtype d) in
     if is_float_kind k then
       (let (x, err) = ParseFloat P s (Bits P k) in (err, SetFloat d x \<sigma>))
     else if is_int_kind k then
       (let (x, err) = ParseInt P s 10 (Bits P k) in (err, SetInt P d x \<sigma>))
     else if is_uint_kind k then
       (let (x, err) = ParseUint P s 10 (Bits P k) in (err, SetUint P d x \<sigma>))
     else if k = KBool then
       (let (x, err) = ParseBool P s in (err, SetBool d x \<sigma>))
     else if k = KString then (None, SetString d s \<sigma>)
     else if k = KSlice then
       (if Kind (Elem (rtype d)) \<noteq> KUint8 then (Some (cannotConvert (rtype d) (Bulk s)), \<sigma>)
        else (None, SetBytes d s \<sigma>))
     else (Some (cannotConvert (rtype d) (Bulk s)), \<sigma>))"

definition convertAssignInt ::
  "platform \<Rightarrow> rvalue \<Rightarrow> 64 word \<Rightarrow> store \<Rightarrow> error option \<times> store" where
  "convertAssignInt P d s \<sigma> =
    (let k = Kind (rtype d) in
     if is_int_kind k then
       (let \<sigma>1 = SetInt P d s \<sigma> in
        if Int_of \<sigma>1 d = s then (None, \<sigma>1) else (Some ErrRange, SetInt P d 0 \<sigma>1))
     else if is_uint_kind k then
       (if s <s 0 then (Some ErrRange, \<sigma>)
        else
          (let x = s; \<sigma>1 = SetUint P d x \<sigma> in
           if Uint_of \<sigma>1 d = x then (None, \<sigma>1) else (Some ErrRange, SetUint P d 0 \<sigma>1)))
     else if k = KBool then (None, SetBool d (s \<noteq> 0) \<sigma>)
     else (Some (cannotConvert (rtype d) (Integer s)), \<sigma>))"

section \<open>Sequence conversion\<close>

definition zero_kind :: "kind \<Rightarrow> goval" where
  "zero_kind k =
    (if is_int_kind k then VInt 0
     else if is_uint_kind k \<or> k = KUintptr then VUint 0
     else if is_float_kind k then VFloat (Finite False 0 0)
     else if k = KBool then VBool False
     else if k = KString then VString []
     else VOpaque)"

text \<open>The zero value of a type, as \<^verbatim>\<open>reflect.MakeSlice\<close> and \<^verbatim>\<open>new\<close> produce it.\<close>

fun zero :: "gotype \<Rightarrow> goval" and zeros :: "field list \<Rightarrow> goval list" where
  "zero (Basic k) = zero_kind k"
| "zero (Defined n k) = zero_kind k"
| "zero (SliceOf t) = VSlice [] 0"
| "zero (PtrTo t) = VPtr None"
| "zero EmptyInterface = VIface Null"
| "zero (StructOf n fs) = VStruct (zeros fs)"
| "zero (Opaque n k) = VOpaque"
| "zeros [] = []"
| "zeros (Field n p a t g # fs) = zero t # zeros fs"

definition Cap :: "store \<Rightarrow> rvalue \<Rightarrow> nat" where
  "Cap \<sigma> d = (case load \<sigma> d of VSlice xs n \<Rightarrow> length xs | _ \<Rightarrow> 0)"

definition SetLen :: "rvalue \<Rightarrow> nat \<Rightarrow> store \<Rightarrow> store" where
  "SetLen d n \<sigma> = store_at \<sigma> d (case load \<sigma> d of VSlice xs m \<Rightarrow> VSlice xs n | v \<Rightarrow> v)"

definition MakeSlice :: "gotype \<Rightarrow> nat \<Rightarrow> nat \<Rightarrow> goval" where
  "MakeSlice t n c = VSlice (replicate c (zero (Elem t))) n"

definition Index :: "rvalue \<Rightarrow> nat \<Rightarrow> rvalue" where
  "Index d i = \<lparr>rtype = Elem (rtype d), raddr = raddr d, rpath = rpath d @ [i]\<rparr>"

text \<open>
  The loop of \<^verbatim>\<open>convertAssignValues\<close> over \<^verbatim>\<open>s[i]\<close>, \<open>i\<close> counting up from where the
  remaining elements start; it stops at the first error.
\<close>

fun convertAssignValues_loop ::
  "platform \<Rightarrow> rvalue \<Rightarrow> iface list \<Rightarrow> nat \<Rightarrow> store \<Rightarrow> error option \<times> store" where
  "convertAssignValues_loop P d [] i \<sigma> = (None, \<sigma>)"
| "convertAssignValues_loop P d (x # xs) i \<sigma> =
    (let (err, \<sigma>') =
       (case x of
          Bulk b \<Rightarrow> convertAssignBytes P (Index d i) b \<sigma>
        | Integer n \<Rightarrow> convertAssignInt P (Index d i) n \<sigma>
        | _ \<Rightarrow> (Some (cannotConvert (rtype d) x), \<sigma>))
     in if err \<noteq> None then (err, \<sigma>') else convertAssignValues_loop P d xs (Suc i) \<sigma>')"

definition convertAssignValues ::
  "platform \<Rightarrow> rvalue \<Rightarrow> iface list \<Rightarrow> store \<Rightarrow> error option \<times> store" where
  "convertAssignValues P d s \<sigma> =
    (if Kind (rtype d) \<noteq> KSlice then (Some (cannotConvert (rtype d) (Multi s)), \<sigma>)
     else
       (let \<sigma>1 = (if length s > Cap \<sigma> d
                   then store_at \<sigma> d (MakeSlice (rtype d) (length s) (length s))
                   else SetLen d (length s) \<sigma>)
        in convertAssignValues_loop P d s 0 \<sigma>1))"

section \<open>convertAssign and Scan\<close>

text \<open>
  A destination that is a pointer: the pointed-to type and the address, none for a nil
  pointer. An assignment \<^verbatim>\<open>*d = v\<close> through a nil pointer panics.
\<close>

definition as_pointer :: "iface \<Rightarrow> (gotype \<times> nat option) option" where
  "as_pointer d = (case d of Dyn (PtrTo t) (VPtr p) \<Rightarrow> Some (t, p) | _ \<Rightarrow> None)"

definition assign ::
  "nat option \<Rightarrow> goval \<Rightarrow> error option \<Rightarrow> store \<Rightarrow> panic + (error option \<times> store)" where
  "assign p v err \<sigma> = (case p of None \<Rightarrow> Inl NilDereference | Some a \<Rightarrow> Inr (err, \<sigma>(a := v)))"

definition Elem_value :: "gotype \<Rightarrow> nat \<Rightarrow> rvalue" where
  "Elem_value t a = \<lparr>rtype = t, raddr = a, rpath = []\<rparr>"

text \<open>
  The fall-back of each branch is reflection: a destination that is no pointer cannot be
  converted into; \<^verbatim>\<open>Elem\<close> of a nil pointer is the zero \<^verbatim>\<open>Value\<close>, on which the first
  statement of the callee, \<^verbatim>\<open>d.Type()\<close>, panics. The last branch calls
  \<^verbatim>\<open>reflect.ValueOf(d)\<close>, the zero \<^verbatim>\<open>Value\<close> for a nil destination, and panics likewise.
\<close>

definition convertAssign ::
  "platform \<Rightarrow> iface \<Rightarrow> iface \<Rightarrow> store \<Rightarrow> panic + (error option \<times> store)" where
  "convertAssign P d s \<sigma> =
    (case s of
       Null \<Rightarrow> Inr (None, \<sigma>)
     | Bulk b \<Rightarrow>
        (case as_pointer d of
           Some (t, p) \<Rightarrow>
             if t = stringT then assign p (VString b) None \<sigma>
             else if t = intT then (let (x, err) = Atoi P b in assign p (VInt x) err \<sigma>)
             else if t = boolT then (let (x, err) = ParseBool P b in assign p (VBool x) err \<sigma>)
             else if t = bytesT then assign p (bytes_val b) None \<sigma>
             else if t = EmptyInterface then assign p (VIface (Bulk b)) None \<sigma>
             else (case p of
                     None \<Rightarrow> Inl ZeroValueType
                   | Some a \<Rightarrow> Inr (convertAssignBytes P (Elem_value t a) b \<sigma>))
         | None \<Rightarrow>
            (case TypeOf d of
               None \<Rightarrow> Inr (None, \<sigma>)
             | Some td \<Rightarrow> Inr (Some (cannotConvert td s), \<sigma>)))
     | Integer n \<Rightarrow>
        (case as_pointer d of
           Some (t, p) \<Rightarrow>
             if t = intT then
               (let x = signed_take_bit (IntSize P - 1) (sint n) in
                if x \<noteq> sint n then assign p (VInt 0) (Some ErrRange) \<sigma>
                else assign p (VInt x) None \<sigma>)
             else if t = boolT then assign p (VBool (n \<noteq> 0)) None \<sigma>
             else if t = EmptyInterface then assign p (VIface (Integer n)) None \<sigma>
             else (case p of
                     None \<Rightarrow> Inl ZeroValueType
                   | Some a \<Rightarrow> Inr (convertAssignInt P (Elem_value t a) n \<sigma>))
         | None \<Rightarrow>
            (case TypeOf d of
               None \<Rightarrow> Inr (None, \<sigma>)
             | Some td \<Rightarrow> Inr (Some (cannotConvert td s), \<sigma>)))
     | Multi xs \<Rightarrow>
        (case as_pointer d of
           Some (t, p) \<Rightarrow>
             if t = ifacesT then assign p (VSlice (map VIface xs) (length xs)) None \<sigma>
             else if t = EmptyInterface then assign p (VIface (Multi xs)) None \<sigma>
             else (case p of
                     None \<Rightarrow> Inl ZeroValueType
                   | Some a \<Rightarrow> Inr (convertAssignValues P (Elem_value t a) xs \<sigma>))
         | None \<Rightarrow>
            (case TypeOf d of
               None \<Rightarrow> Inr (None, \<sigma>)
             | Some td \<Rightarrow> Inr (Some (cannotConvert td s), \<sigma>)))
     | Error e \<Rightarrow> Inr (Some (ReplyError e), \<sigma>)
     | Dyn ts vs \<Rightarrow>
        (case TypeOf d of
           None \<Rightarrow> Inl ZeroValueType
         | Some td \<Rightarrow> Inr (Some (cannotConvert td s), \<sigma>)))"

text \<open>
  The loop of \<^verbatim>\<open>Scan\<close>: \<open>i\<close> is the index of the next destination, \<^verbatim>\<open>src[i]\<close> its source.
\<close>

fun Scan_loop ::
  "platform \<Rightarrow> iface list \<Rightarrow> iface list \<Rightarrow> nat \<Rightarrow> store \<Rightarrow> panic + (error option \<times> store)" where
  "Scan_loop P src [] i \<sigma> = Inr (None, \<sigma>)"
| "Scan_loop P src (d # ds) i \<sigma> =
    (case convertAssign P d (src ! i) \<sigma> of
       Inl pn \<Rightarrow> Inl pn
     | Inr (err, \<sigma>') \<Rightarrow>
         if err \<noteq> None then Inr (err, \<sigma>') else Scan_loop P src ds (Suc i) \<sigma>')"

text \<open>\<^verbatim>\<open>Scan\<close> returns the rest of \<open>src\<close> and the error; the model adds the store it leaves.\<close>

definition Scan ::
  "platform \<Rightarrow> iface list \<Rightarrow> iface list \<Rightarrow> store
     \<Rightarrow> panic + (iface list \<times> error option \<times> store)" where
  "Scan P src dest \<sigma> =
    (if length src < length dest then Inr ([], Some ScanShort, \<sigma>)
     else
       (case Scan_loop P src dest 0 \<sigma> of
          Inl pn \<Rightarrow> Inl pn
        | Inr (err, \<sigma>') \<Rightarrow> Inr (drop (length dest) src, err, \<sigma>')))"

section \<open>The struct specification compiler\<close>

text \<open>
  \<^verbatim>\<open>fieldSpec\<close> and \<^verbatim>\<open>structSpec\<close>; the fields \<^verbatim>\<open>name\<close>, \<^verbatim>\<open>index\<close>, \<^verbatim>\<open>m\<close> and \<^verbatim>\<open>l\<close> of
  the source carry a prefix here. The map and the list of the source hold pointers to
  the same \<^verbatim>\<open>fieldSpec\<close> objects, which are never written after their creation: the
  model holds them by value.
\<close>

record fieldSpec =
  fs_name :: string
  fs_index :: "nat list"

record structSpec =
  ss_m :: "string \<rightharpoonup> fieldSpec"
  ss_l :: "fieldSpec list"

text \<open>\<^verbatim>\<open>strings.Split(tag, ",")\<close>: the pieces between the commas, at least one.\<close>

fun split_comma :: "string \<Rightarrow> string list" where
  "split_comma [] = [[]]"
| "split_comma (c # cs) =
    (if c = CHR '','' then [] # split_comma cs
     else (let ps = split_comma cs in (c # hd ps) # tl ps))"

text \<open>
  The default branch of the switch in \<^verbatim>\<open>compileStructSpec\<close>, for an exported field that is
  not embedded: \<open>tn\<close> is \<^verbatim>\<open>t.Name()\<close>, \<open>nm\<close> the field's name, \<open>tag\<close> its \<^verbatim>\<open>redis\<close> tag and
  \<open>i\<close> its number. A tag \<^verbatim>\<open>-\<close> skips the field; any flag after the name panics.
\<close>

definition compileField ::
  "string \<Rightarrow> string \<Rightarrow> string \<Rightarrow> nat \<Rightarrow> (string \<rightharpoonup> nat) \<Rightarrow> nat list \<Rightarrow> structSpec
     \<Rightarrow> panic + ((string \<rightharpoonup> nat) \<times> structSpec)" where
  "compileField tn nm tag i depth index ss =
    (let p = split_comma tag in
     if length p > 0 \<and> hd p = ''-'' then Inr (depth, ss)
     else if length p > 0 \<and> tl p \<noteq> [] then Inl (UnknownFieldFlag (hd (tl p)) tn)
     else
       (let name = (if length p > 0 \<and> length (hd p) > 0 then hd p else nm);
            d = (case depth name of None \<Rightarrow> 2 ^ 30 | Some d \<Rightarrow> d)
        in if length index = d then
             Inr (depth,
                  \<lparr>ss_m = (ss_m ss)(name := None),
                   ss_l = filter (\<lambda>e. name \<noteq> fs_name e) (ss_l ss)\<rparr>)
           else if length index < d then
             (let fs = \<lparr>fs_name = name, fs_index = index @ [i]\<rparr> in
              Inr (depth(name \<mapsto> length index),
                   \<lparr>ss_m = (ss_m ss)(name \<mapsto> fs), ss_l = ss_l ss @ [fs]\<rparr>))
           else Inr (depth, ss)))"

text \<open>
  \<^verbatim>\<open>compileStructSpec\<close> threads the depth map and the spec under construction through the
  fields of \<open>t\<close>; \<^verbatim>\<open>t.NumField()\<close> panics when \<open>t\<close> is no struct type.
\<close>

fun compileStructSpec ::
  "gotype \<Rightarrow> (string \<rightharpoonup> nat) \<Rightarrow> nat list \<Rightarrow> structSpec
     \<Rightarrow> panic + ((string \<rightharpoonup> nat) \<times> structSpec)"
and compileStructSpec_loop ::
  "string \<Rightarrow> field list \<Rightarrow> nat \<Rightarrow> (string \<rightharpoonup> nat) \<Rightarrow> nat list \<Rightarrow> structSpec
     \<Rightarrow> panic + ((string \<rightharpoonup> nat) \<times> structSpec)" where
  "compileStructSpec (StructOf tn fs) depth index ss = compileStructSpec_loop tn fs 0 depth index ss"
| "compileStructSpec (Basic k) depth index ss = Inl NumFieldOfNonStruct"
| "compileStructSpec (Defined n k) depth index ss = Inl NumFieldOfNonStruct"
| "compileStructSpec (SliceOf t) depth index ss = Inl NumFieldOfNonStruct"
| "compileStructSpec (PtrTo t) depth index ss = Inl NumFieldOfNonStruct"
| "compileStructSpec EmptyInterface depth index ss = Inl NumFieldOfNonStruct"
| "compileStructSpec (Opaque n k) depth index ss = Inl NumFieldOfNonStruct"
| "compileStructSpec_loop tn [] i depth index ss = Inr (depth, ss)"
| "compileStructSpec_loop tn (Field nm pkg anon t tag # fs) i depth index ss =
    (if pkg \<noteq> [] then compileStructSpec_loop tn fs (Suc i) depth index ss
     else if anon then
       (if Kind t = KStruct then
          (case compileStructSpec t depth (index @ [i]) ss of
             Inl pn \<Rightarrow> Inl pn
           | Inr (depth', ss') \<Rightarrow> compileStructSpec_loop tn fs (Suc i) depth' index ss')
        else compileStructSpec_loop tn fs (Suc i) depth index ss)
     else
       (case compileField tn nm tag i depth index ss of
          Inl pn \<Rightarrow> Inl pn
        | Inr (depth', ss') \<Rightarrow> compileStructSpec_loop tn fs (Suc i) depth' index ss'))"

text \<open>
  The cache of compiled specs, keyed by type. The locks of the source order concurrent
  callers and have no sequential effect; the second look-up under the write lock repeats
  the first.
\<close>

type_synonym cache = "gotype \<rightharpoonup> structSpec"

definition structSpecForType :: "cache \<Rightarrow> gotype \<Rightarrow> panic + (structSpec \<times> cache)" where
  "structSpecForType c t =
    (case c t of
       Some ss \<Rightarrow> Inr (ss, c)
     | None \<Rightarrow>
        (case compileStructSpec t Map.empty [] \<lparr>ss_m = Map.empty, ss_l = []\<rparr> of
           Inl pn \<Rightarrow> Inl pn
         | Inr (depth, ss) \<Rightarrow> Inr (ss, c(t \<mapsto> ss))))"

section \<open>ScanStruct and AppendStruct\<close>

text \<open>\<^verbatim>\<open>Type.Field(i).Type\<close> and the type at the end of an index path.\<close>

fun FieldType :: "gotype \<Rightarrow> nat \<Rightarrow> gotype" where
  "FieldType (StructOf n fs) i = fType (fs ! i)"
| "FieldType t i = t"

fun type_at :: "gotype \<Rightarrow> nat list \<Rightarrow> gotype" where
  "type_at t [] = t"
| "type_at t (i # p) = type_at (FieldType t i) p"

definition FieldByIndex :: "rvalue \<Rightarrow> nat list \<Rightarrow> rvalue" where
  "FieldByIndex d index =
     \<lparr>rtype = type_at (rtype d) index, raddr = raddr d, rpath = rpath d @ index\<rparr>"

text \<open>
  The loop of \<^verbatim>\<open>ScanStruct\<close> over the pairs \<^verbatim>\<open>src[i]\<close>, \<^verbatim>\<open>src[i+1]\<close>; it runs on a source
  of even length.
\<close>

fun ScanStruct_loop ::
  "platform \<Rightarrow> structSpec \<Rightarrow> rvalue \<Rightarrow> iface list \<Rightarrow> store \<Rightarrow> error option \<times> store" where
  "ScanStruct_loop P ss d (k # v # rest) \<sigma> =
    (case k of
       Bulk name \<Rightarrow>
        (case ss_m ss name of
           None \<Rightarrow> ScanStruct_loop P ss d rest \<sigma>
         | Some fs \<Rightarrow>
            (let f = FieldByIndex d (fs_index fs);
                 (err, \<sigma>') =
                   (case v of
                      Null \<Rightarrow> (None, \<sigma>)
                    | Bulk b \<Rightarrow> convertAssignBytes P f b \<sigma>
                    | Integer n \<Rightarrow> convertAssignInt P f n \<sigma>
                    | _ \<Rightarrow> (Some (cannotConvert (rtype f) v), \<sigma>))
             in if err \<noteq> None then (err, \<sigma>') else ScanStruct_loop P ss d rest \<sigma>'))
     | _ \<Rightarrow> (Some ScanStructKey, \<sigma>))"
| "ScanStruct_loop P ss d [] \<sigma> = (None, \<sigma>)"
| "ScanStruct_loop P ss d [k] \<sigma> = (None, \<sigma>)"

text \<open>
  \<^verbatim>\<open>ScanStruct\<close>: the destination must be a non-nil pointer; the spec of the pointed-to
  type is fetched before the length of the source is checked.
\<close>

definition ScanStruct ::
  "platform \<Rightarrow> iface list \<Rightarrow> iface \<Rightarrow> store \<times> cache
     \<Rightarrow> panic + (error option \<times> store \<times> cache)" where
  "ScanStruct P src dest w =
    (case w of (\<sigma>, c) \<Rightarrow>
      (case as_pointer dest of
         Some (t, Some a) \<Rightarrow>
          (case structSpecForType c t of
             Inl pn \<Rightarrow> Inl pn
           | Inr (ss, c') \<Rightarrow>
              if length src mod 2 \<noteq> 0 then Inr (Some ScanStructOdd, \<sigma>, c')
              else
                (let (err, \<sigma>') = ScanStruct_loop P ss (Elem_value t a) src \<sigma>
                 in Inr (err, \<sigma>', c')))
       | _ \<Rightarrow> Inr (Some ScanStructPointer, \<sigma>, c)))"

text \<open>
  \<^verbatim>\<open>Value.Interface\<close>: the value as an \<^verbatim>\<open>interface{}\<close>, whose dynamic type is the type of
  the field; a field of interface type gives what it holds.
\<close>

fun uint_of_val :: "goval \<Rightarrow> nat" where
  "uint_of_val (VUint n) = n"
| "uint_of_val v = 0"

fun iface_of_val :: "goval \<Rightarrow> iface" where
  "iface_of_val (VIface x) = x"
| "iface_of_val v = Null"

fun slice_elems :: "goval \<Rightarrow> goval list" where
  "slice_elems (VSlice xs n) = take n xs"
| "slice_elems v = []"

definition Interface :: "gotype \<Rightarrow> goval \<Rightarrow> iface" where
  "Interface t v =
    (if t = bytesT then Bulk (map (\<lambda>x. char_of (uint_of_val x)) (slice_elems v))
     else if t = int64T then Integer (case v of VInt i \<Rightarrow> word_of_int i | _ \<Rightarrow> 0)
     else if t = ifacesT then Multi (map iface_of_val (slice_elems v))
     else if t = ErrorT then Error (case v of VString e \<Rightarrow> e | _ \<Rightarrow> [])
     else if Kind t = KInterface then iface_of_val v
     else Dyn t v)"

text \<open>The loop of \<^verbatim>\<open>AppendStruct\<close> over \<^verbatim>\<open>ss.l\<close>, reading the fields of the struct \<open>v\<close>.\<close>

fun AppendStruct_loop :: "gotype \<Rightarrow> goval \<Rightarrow> fieldSpec list \<Rightarrow> iface list \<Rightarrow> iface list" where
  "AppendStruct_loop t v [] args = args"
| "AppendStruct_loop t v (fs # l) args =
    AppendStruct_loop t v l
      (args @ [Dyn stringT (VString (fs_name fs)),
               Interface (type_at t (fs_index fs)) (get_at v (fs_index fs))])"

definition AppendStruct ::
  "iface list \<Rightarrow> iface \<Rightarrow> store \<times> cache \<Rightarrow> panic + (iface list \<times> error option \<times> cache)" where
  "AppendStruct args src w =
    (case w of (\<sigma>, c) \<Rightarrow>
      (case (case as_pointer src of
               Some (t, p) \<Rightarrow>
                (case p of None \<Rightarrow> Inl AppendStructNil | Some a \<Rightarrow> Inr (t, \<sigma> a))
             | None \<Rightarrow> (case src of Dyn t v \<Rightarrow> Inr (t, v) | _ \<Rightarrow> Inl AppendStructKind)) of
         Inl e \<Rightarrow> Inr ([], Some e, c)
       | Inr (t, v) \<Rightarrow>
          if Kind t \<noteq> KStruct then Inr ([], Some AppendStructKind, c)
          else
            (case structSpecForType c t of
               Inl pn \<Rightarrow> Inl pn
             | Inr (ss, c') \<Rightarrow> Inr (AppendStruct_loop t v (ss_l ss) args, None, c'))))"

section \<open>Notions the properties are stated with\<close>

text \<open>
  An \<^verbatim>\<open>int64\<close> source \<open>s\<close> fits a destination of integer kind \<open>k\<close> when its value lies
  in the range of the kind's width, and \<open>int_val k s\<close> is then the content of the
  destination that holds exactly \<open>s\<close>.
\<close>

definition fits :: "platform \<Rightarrow> kind \<Rightarrow> 64 word \<Rightarrow> bool" where
  "fits P k s =
    (if is_int_kind k then - (2 ^ (Bits P k - 1)) \<le> sint s \<and> sint s < 2 ^ (Bits P k - 1)
     else 0 \<le> sint s \<and> sint s < 2 ^ Bits P k)"

definition int_val :: "kind \<Rightarrow> 64 word \<Rightarrow> goval" where
  "int_val k s = (if is_int_kind k then VInt (sint s) else VUint (unat s))"

text \<open>
  Platforms for the concrete runs, 64-bit and 32-bit, with a \<^verbatim>\<open>strconv\<close> that rejects
  every text. The runs below convert integers and strings only, which \<^verbatim>\<open>strconv\<close> does
  not see.
\<close>

definition P64 :: platform where
  "P64 =
    \<lparr>arch = Arch64,
     ParseFloat = (\<lambda>s b. (Finite False 0 0, Some ErrSyntax)),
     ParseInt = (\<lambda>s b n. (0, Some ErrSyntax)),
     ParseUint = (\<lambda>s b n. (0, Some ErrSyntax)),
     ParseBool = (\<lambda>s. (False, Some ErrSyntax)),
     Atoi = (\<lambda>s. (0, Some ErrSyntax))\<rparr>"

definition P32 :: platform where
  "P32 = P64\<lparr>arch := Arch32\<rparr>"

text \<open>A store whose variables all hold the integer 7.\<close>

definition sevens :: store where
  "sevens = (\<lambda>a. VInt 7)"

text \<open>
  \<open>ptr t a\<close> is the pointer \<^verbatim>\<open>&x\<close> to the variable of type \<open>t\<close> at address \<open>a\<close>. \<open>target d\<close>
  is the variable a destination points to, \<open>valid_dest d\<close> says that \<open>d\<close> is no nil pointer,
  and \<open>is_reply s\<close> that \<open>s\<close> is one of the five values a decoded reply consists of.
\<close>

definition ptr :: "gotype \<Rightarrow> nat \<Rightarrow> iface" where
  "ptr t a = Dyn (PtrTo t) (VPtr (Some a))"

definition target :: "iface \<Rightarrow> nat option" where
  "target d = (case as_pointer d of Some (t, Some a) \<Rightarrow> Some a | _ \<Rightarrow> None)"

definition valid_dest :: "iface \<Rightarrow> bool" where
  "valid_dest d = (case as_pointer d of Some (t, None) \<Rightarrow> False | _ \<Rightarrow> True)"

definition is_reply :: "iface \<Rightarrow> bool" where
  "is_reply s = (case s of Dyn t v \<Rightarrow> False | _ \<Rightarrow> True)"

text \<open>
  The candidates of a struct type: the fields \<^verbatim>\<open>compileStructSpec\<close> considers, in the order
  of its traversal (declaration order, depth first into embedded structs), each with its
  resolved name and its index path. The depth of a candidate is the number of embedded
  structs above it.
\<close>

definition resolved_name :: "string \<Rightarrow> string \<Rightarrow> string" where
  "resolved_name nm tag =
     (if length (hd (split_comma tag)) > 0 then hd (split_comma tag) else nm)"

fun candidates :: "gotype \<Rightarrow> nat list \<Rightarrow> fieldSpec list"
and candidates_loop :: "field list \<Rightarrow> nat \<Rightarrow> nat list \<Rightarrow> fieldSpec list" where
  "candidates (StructOf tn fs) index = candidates_loop fs 0 index"
| "candidates (Basic k) index = []"
| "candidates (Defined n k) index = []"
| "candidates (SliceOf t) index = []"
| "candidates (PtrTo t) index = []"
| "candidates EmptyInterface index = []"
| "candidates (Opaque n k) index = []"
| "candidates_loop [] i index = []"
| "candidates_loop (Field nm pkg anon t tag # fs) i index =
    (if pkg \<noteq> [] then []
     else if anon then (if Kind t = KStruct then candidates t (index @ [i]) else [])
     else if hd (split_comma tag) = ''-'' then []
     else [\<lparr>fs_name = resolved_name nm tag, fs_index = index @ [i]\<rparr>])
    @ candidates_loop fs (Suc i) index"

definition depth_of :: "fieldSpec \<Rightarrow> nat" where
  "depth_of c = length (fs_index c) - 1"

text \<open>
  The shadowing rule in the words of the specification: among the candidates named \<open>n\<close>,
  those at the least depth; the name resolves to a candidate when exactly one is there.
\<close>

definition named :: "string \<Rightarrow> fieldSpec list \<Rightarrow> fieldSpec list" where
  "named n cs = filter (\<lambda>c. fs_name c = n) cs"

definition min_depth :: "string \<Rightarrow> fieldSpec list \<Rightarrow> nat" where
  "min_depth n cs = Min (set (map depth_of (named n cs)))"

definition shallowest :: "string \<Rightarrow> fieldSpec list \<Rightarrow> fieldSpec list" where
  "shallowest n cs = filter (\<lambda>c. depth_of c = min_depth n cs) (named n cs)"

definition resolve :: "string \<Rightarrow> fieldSpec list \<Rightarrow> fieldSpec option" where
  "resolve n cs = (case shallowest n cs of [c] \<Rightarrow> Some c | _ \<Rightarrow> None)"

text \<open>What the compiler does with one candidate: the depth switch of the source.\<close>

definition record_field ::
  "(string \<rightharpoonup> nat) \<times> structSpec \<Rightarrow> fieldSpec \<Rightarrow> (string \<rightharpoonup> nat) \<times> structSpec" where
  "record_field st c =
    (case st of (depth, ss) \<Rightarrow>
      (let d = (case depth (fs_name c) of None \<Rightarrow> 2 ^ 30 | Some d \<Rightarrow> d) in
       if depth_of c = d then
         (depth, \<lparr>ss_m = (ss_m ss)(fs_name c := None),
                  ss_l = filter (\<lambda>e. fs_name c \<noteq> fs_name e) (ss_l ss)\<rparr>)
       else if depth_of c < d then
         (depth(fs_name c \<mapsto> depth_of c),
          \<lparr>ss_m = (ss_m ss)(fs_name c \<mapsto> c), ss_l = ss_l ss @ [c]\<rparr>)
       else (depth, ss)))"

text \<open>The sequence \<^verbatim>\<open>AppendStruct\<close> appends for the entries \<open>l\<close> of a spec.\<close>

definition flatten_pairs :: "gotype \<Rightarrow> goval \<Rightarrow> fieldSpec list \<Rightarrow> iface list" where
  "flatten_pairs t v l =
     concat (map (\<lambda>fs. [Dyn stringT (VString (fs_name fs)),
                         Interface (type_at t (fs_index fs)) (get_at v (fs_index fs))]) l)"

text \<open>
  The struct types of the concrete runs.
  \<^verbatim>\<open>type Counter struct { A int }\<close>, with its compiled spec and two stores that hold a
  \<^verbatim>\<open>Counter\<close> in every variable;
  \<^verbatim>\<open>type Inner struct { A int }\<close> and \<^verbatim>\<open>type Outer struct { Inner; A int }\<close>;
  \<^verbatim>\<open>type In1 struct { A, B, D int }\<close>, \<^verbatim>\<open>type In2 struct { A int }\<close> and
  \<^verbatim>\<open>type Shadow struct { D string; In1; In2; B string }\<close>.
\<close>

definition Counter :: gotype where
  "Counter = StructOf ''Counter'' [Field ''A'' [] False intT []]"

definition fieldA :: fieldSpec where
  "fieldA = \<lparr>fs_name = ''A'', fs_index = [0]\<rparr>"

definition Counter_spec :: structSpec where
  "Counter_spec = \<lparr>ss_m = [''A'' \<mapsto> fieldA], ss_l = [fieldA]\<rparr>"

definition Counter_zero :: store where
  "Counter_zero = (\<lambda>a. VStruct [VInt 0])"

definition Counter_five :: store where
  "Counter_five = (\<lambda>a. VStruct [VInt 5])"

definition Inner :: gotype where
  "Inner = StructOf ''Inner'' [Field ''A'' [] False intT []]"

definition Outer :: gotype where
  "Outer = StructOf ''Outer'' [Field ''Inner'' [] True Inner [], Field ''A'' [] False intT []]"

definition In1 :: gotype where
  "In1 = StructOf ''In1''
     [Field ''A'' [] False intT [], Field ''B'' [] False intT [], Field ''D'' [] False intT []]"

definition In2 :: gotype where
  "In2 = StructOf ''In2'' [Field ''A'' [] False intT []]"

definition Shadow :: gotype where
  "Shadow = StructOf ''Shadow''
     [Field ''D'' [] False stringT [], Field ''In1'' [] True In1 [],
      Field ''In2'' [] True In2 [], Field ''B'' [] False stringT []]"

text \<open>
  Three \<^verbatim>\<open>int32\<close> destinations at the addresses 0, 1 and 2, and a source whose second
  value, \<open>2 ^ 40\<close>, does not fit an \<^verbatim>\<open>int32\<close>.
\<close>

definition three_int32s :: "iface list" where
  "three_int32s = [ptr (Basic KInt32) 0, ptr (Basic KInt32) 1, ptr (Basic KInt32) 2]"

definition wide_second :: "iface list" where
  "wide_second = [Integer 5, Integer 1099511627776, Integer 9]"

section \<open>Reading and writing through a path\<close>

lemma get_set_at: "path_ok v p \<Longrightarrow> get_at (set_at v p x) p = x"
proof (induction p arbitrary: v)
  case Nil
  then show ?case by simp
next
  case (Cons i p)
  then show ?case by (cases v) auto
qed

lemma path_ok_set_at: "path_ok v p \<Longrightarrow> path_ok (set_at v p x) p"
proof (induction p arbitrary: v)
  case Nil
  then show ?case by simp
next
  case (Cons i p)
  then show ?case by (cases v) auto
qed

lemma set_set_at: "set_at (set_at v p x) p y = set_at v p y"
proof (induction p arbitrary: v)
  case Nil
  then show ?case by simp
next
  case (Cons i p)
  then show ?case
    by (cases v;
        cases "i < length (case v of VStruct fs \<Rightarrow> fs | VSlice xs n \<Rightarrow> xs | _ \<Rightarrow> [])")
       (auto simp: list_update_beyond not_less)
qed

lemma load_store_at: "addressable \<sigma> d \<Longrightarrow> load (store_at \<sigma> d x) d = x"
  by (simp add: load_def store_at_def addressable_def get_set_at)

lemma store_at_twice: "store_at (store_at \<sigma> d x) d y = store_at \<sigma> d y"
  by (simp add: store_at_def set_set_at)

lemma addressable_store_at: "addressable \<sigma> d \<Longrightarrow> addressable (store_at \<sigma> d x) d"
  by (simp add: store_at_def addressable_def path_ok_set_at)

lemma store_at_Elem_value: "store_at \<sigma> (Elem_value t a) x = \<sigma>(a := x)"
  by (simp add: store_at_def Elem_value_def)

lemma addressable_Elem_value: "addressable \<sigma> (Elem_value t a)"
  by (simp add: addressable_def Elem_value_def)

lemma Elem_value_sel:
  "rtype (Elem_value t a) = t" "raddr (Elem_value t a) = a" "rpath (Elem_value t a) = []"
  by (simp_all add: Elem_value_def)

section \<open>Integer sources\<close>

lemma Bits_int_kind: "is_int_kind k \<Longrightarrow> 8 \<le> Bits P k \<and> Bits P k \<le> 64"
  by (auto simp: is_int_kind_def Bits_def IntSize_def split: arch.splits)

lemma Bits_uint_kind: "is_uint_kind k \<Longrightarrow> 8 \<le> Bits P k \<and> Bits P k \<le> 64"
  by (auto simp: is_uint_kind_def Bits_def IntSize_def split: arch.splits)

lemma int_uint_disjoint: "is_uint_kind k \<Longrightarrow> \<not> is_int_kind k"
  by (auto simp: is_int_kind_def is_uint_kind_def)

lemma word64_signed_trunc_eq:
  fixes s :: "64 word"
  assumes "n \<le> 63"
  shows "(word_of_int (signed_take_bit n (sint s)) = s) = (signed_take_bit n (sint s) = sint s)"
proof
  assume a: "word_of_int (signed_take_bit n (sint s)) = s"
  have "sint s = sint (word_of_int (signed_take_bit n (sint s)) :: 64 word)"
    using a by simp
  also have "\<dots> = signed_take_bit 63 (signed_take_bit n (sint s))"
    by (simp add: sint_sbintrunc')
  also have "\<dots> = signed_take_bit n (sint s)"
    using assms by (simp add: min_def)
  finally show "signed_take_bit n (sint s) = sint s" by simp
next
  assume "signed_take_bit n (sint s) = sint s"
  then show "word_of_int (signed_take_bit n (sint s)) = s" by simp
qed

lemma word64_trunc_eq:
  fixes s :: "64 word"
  assumes "n \<le> 64"
  shows "(word_of_nat (take_bit n (unat s)) = s) = (take_bit n (unat s) = unat s)"
  by (metis le_unat_uoi take_bit_nat_less_eq_self word_unat_eq_iff)

lemma nonneg_unat: "\<not> s <s 0 \<Longrightarrow> int (unat (s :: 64 word)) = sint s"
proof -
  assume "\<not> s <s 0"
  then have nn: "0 \<le> sint s" by (simp add: word_sless_alt)
  have "sint s < 2 ^ 63" using sint_less [of s] by simp
  then have lt: "sint s < 2 ^ 64" by simp
  have "uint s = take_bit 64 (sint s)" using uint_sint [of s] by simp
  also have "\<dots> = sint s" using nn lt by (rule take_bit_int_eq_self)
  finally show ?thesis by simp
qed

text \<open>What \<^verbatim>\<open>convertAssignInt\<close> returns and leaves, for a signed destination.\<close>

lemma convertAssignInt_signed:
  assumes k: "is_int_kind (Kind (rtype d))" and a: "addressable \<sigma> d"
  shows "convertAssignInt P d s \<sigma> =
     (if fits P (Kind (rtype d)) s then (None, store_at \<sigma> d (VInt (sint s)))
      else (Some ErrRange, store_at \<sigma> d (VInt 0)))"
proof -
  let ?n = "Bits P (Kind (rtype d)) - 1"
  have n: "?n \<le> 63" using Bits_int_kind [OF k, of P] by arith
  have rd: "Int_of (SetInt P d s \<sigma>) d = word_of_int (signed_take_bit ?n (sint s))"
    by (simp add: Int_of_def SetInt_def load_store_at [OF a])
  have eq: "(Int_of (SetInt P d s \<sigma>) d = s) = fits P (Kind (rtype d)) s"
    unfolding rd word64_signed_trunc_eq [OF n]
    by (simp add: fits_def k signed_take_bit_int_eq_self_iff)
  show ?thesis
  proof (cases "fits P (Kind (rtype d)) s")
    case True
    then have "signed_take_bit ?n (sint s) = sint s"
      by (simp add: fits_def k signed_take_bit_int_eq_self_iff)
    with True show ?thesis
      using eq by (simp add: convertAssignInt_def k Let_def) (simp add: SetInt_def)
  next
    case False
    then show ?thesis
      using eq
      by (simp add: convertAssignInt_def k Let_def) (simp add: SetInt_def store_at_twice)
  qed
qed

text \<open>The same for an unsigned destination.\<close>

lemma convertAssignInt_unsigned:
  assumes k: "is_uint_kind (Kind (rtype d))" and a: "addressable \<sigma> d"
  shows "convertAssignInt P d s \<sigma> =
     (if s <s 0 then (Some ErrRange, \<sigma>)
      else if fits P (Kind (rtype d)) s then (None, store_at \<sigma> d (VUint (unat s)))
      else (Some ErrRange, store_at \<sigma> d (VUint 0)))"
proof (cases "s <s 0")
  case True
  then show ?thesis by (simp add: convertAssignInt_def k int_uint_disjoint [OF k])
next
  case neg: False
  let ?n = "Bits P (Kind (rtype d))"
  have n: "?n \<le> 64" using Bits_uint_kind [OF k, of P] by simp
  have rd: "Uint_of (SetUint P d s \<sigma>) d = word_of_nat (take_bit ?n (unat s))"
    by (simp add: Uint_of_def SetUint_def load_store_at [OF a])
  have i: "(int (unat s) < 2 ^ ?n) = (unat s < 2 ^ ?n)"
    using of_nat_less_iff [of "unat s" "2 ^ ?n", where ?'a = int] by simp
  have nn: "0 \<le> sint s" using neg by (simp add: word_sless_alt)
  have f: "fits P (Kind (rtype d)) s = (unat s < 2 ^ ?n)"
    unfolding i [symmetric] nonneg_unat [OF neg]
    by (simp add: fits_def int_uint_disjoint [OF k] nn)
  have eq: "(Uint_of (SetUint P d s \<sigma>) d = s) = fits P (Kind (rtype d)) s"
    unfolding rd word64_trunc_eq [OF n] f by (simp add: take_bit_nat_eq_self_iff)
  show ?thesis
  proof (cases "fits P (Kind (rtype d)) s")
    case True
    then have "take_bit ?n (unat s) = unat s"
      by (simp add: f take_bit_nat_eq_self_iff)
    with True neg show ?thesis
      using eq
      by (simp add: convertAssignInt_def k int_uint_disjoint [OF k] Let_def)
         (simp add: SetUint_def)
  next
    case False
    with neg show ?thesis
      using eq
      by (simp add: convertAssignInt_def k int_uint_disjoint [OF k] Let_def)
         (simp add: SetUint_def store_at_twice)
  qed
qed

text \<open>A negative source never fits an unsigned destination.\<close>

lemma negative_not_fits: "is_uint_kind k \<Longrightarrow> s <s 0 \<Longrightarrow> \<not> fits P k s"
  by (simp add: fits_def int_uint_disjoint word_sless_alt)

text \<open>Both kinds at once: the result and the store \<^verbatim>\<open>convertAssignInt\<close> leaves.\<close>

lemma convertAssignInt_fits:
  assumes k: "is_int_kind (Kind (rtype d)) \<or> is_uint_kind (Kind (rtype d))"
    and a: "addressable \<sigma> d"
  shows "convertAssignInt P d s \<sigma> =
     (if fits P (Kind (rtype d)) s
      then (None, store_at \<sigma> d (int_val (Kind (rtype d)) s))
      else (Some ErrRange,
            if is_uint_kind (Kind (rtype d)) \<and> s <s 0 then \<sigma>
            else store_at \<sigma> d (zero_kind (Kind (rtype d)))))"
proof (cases "is_int_kind (Kind (rtype d))")
  case True
  then show ?thesis
    using int_uint_disjoint [of "Kind (rtype d)"]
    by (auto simp add: convertAssignInt_signed [OF True a] int_val_def zero_kind_def)
next
  case False
  with k have u: "is_uint_kind (Kind (rtype d))" by simp
  show ?thesis
    using negative_not_fits [OF u, of s P] False
    by (auto simp add: convertAssignInt_unsigned [OF u a] int_val_def zero_kind_def u)
qed

text \<open>
  The same through \<^verbatim>\<open>convertAssign\<close> and a pointer: \<^verbatim>\<open>*int\<close> takes the branch of the type
  switch, every other integer type the reflective one.
\<close>

lemma convertAssign_pointer_int:
  assumes k: "is_int_kind (Kind t) \<or> is_uint_kind (Kind t)"
  shows "convertAssign P (Dyn (PtrTo t) (VPtr (Some a))) (Integer s) \<sigma> =
     Inr (if fits P (Kind t) s then (None, \<sigma>(a := int_val (Kind t) s))
          else (Some ErrRange,
                if is_uint_kind (Kind t) \<and> s <s 0 then \<sigma>
                else \<sigma>(a := zero_kind (Kind t))))"
proof (cases "t = intT")
  case True
  have "fits P KInt s = (signed_take_bit (IntSize P - 1) (sint s) = sint s)"
    by (simp add: fits_def is_int_kind_def Bits_def signed_take_bit_int_eq_self_iff)
  then show ?thesis
    using True
    by (auto simp: convertAssign_def as_pointer_def assign_def Let_def int_val_def
          zero_kind_def is_int_kind_def is_uint_kind_def)
next
  case False
  have ne: "t \<noteq> boolT" "t \<noteq> EmptyInterface"
    using k by (auto simp: is_int_kind_def is_uint_kind_def)
  have r: "rtype (Elem_value t a) = t" by (simp add: Elem_value_def)
  show ?thesis
    using False ne k
    by (simp add: convertAssign_def as_pointer_def store_at_Elem_value
          convertAssignInt_fits [of "Elem_value t a", unfolded r, OF k addressable_Elem_value])
qed

text \<open>
  C8. For every signed or unsigned integer destination and every \<^verbatim>\<open>int64\<close> source \<open>s\<close>:
  when \<open>s\<close> fits the destination, the conversion succeeds, the destination holds exactly
  \<open>s\<close> and reading it back with \<^verbatim>\<open>Int\<close> or \<^verbatim>\<open>Uint\<close> gives \<open>s\<close>; when \<open>s\<close> does not fit (too
  wide, or negative into an unsigned destination), the conversion fails with
  \<^verbatim>\<open>strconv.ErrRange\<close>. This holds for \<^verbatim>\<open>convertAssignInt\<close> on any addressable field or
  element, and for \<^verbatim>\<open>convertAssign\<close> through a pointer.
\<close>

theorem convertAssignInt_exact_or_range:
  assumes "is_int_kind (Kind t) \<or> is_uint_kind (Kind t)"
  shows
    "(\<forall>d \<sigma>. rtype d = t \<and> addressable \<sigma> d \<longrightarrow>
        (if fits P (Kind t) s
         then (\<exists>\<sigma>'. convertAssignInt P d s \<sigma> = (None, \<sigma>') \<and>
                 load \<sigma>' d = int_val (Kind t) s \<and>
                 (if is_int_kind (Kind t) then Int_of \<sigma>' d else Uint_of \<sigma>' d) = s)
         else fst (convertAssignInt P d s \<sigma>) = Some ErrRange)) \<and>
     (\<forall>a \<sigma>.
        if fits P (Kind t) s
        then convertAssign P (Dyn (PtrTo t) (VPtr (Some a))) (Integer s) \<sigma> =
               Inr (None, \<sigma>(a := int_val (Kind t) s))
        else (\<exists>\<sigma>'. convertAssign P (Dyn (PtrTo t) (VPtr (Some a))) (Integer s) \<sigma> =
               Inr (Some ErrRange, \<sigma>')))"
proof (intro conjI allI impI)
  fix d \<sigma>
  assume d: "rtype d = t \<and> addressable \<sigma> d"
  then have k: "is_int_kind (Kind (rtype d)) \<or> is_uint_kind (Kind (rtype d))"
    using assms by simp
  have a: "addressable \<sigma> d" using d by simp
  show "if fits P (Kind t) s
        then (\<exists>\<sigma>'. convertAssignInt P d s \<sigma> = (None, \<sigma>') \<and>
                load \<sigma>' d = int_val (Kind t) s \<and>
                (if is_int_kind (Kind t) then Int_of \<sigma>' d else Uint_of \<sigma>' d) = s)
        else fst (convertAssignInt P d s \<sigma>) = Some ErrRange"
    using d convertAssignInt_fits [OF k a, of P s]
    by (auto simp: load_store_at [OF a] Int_of_def Uint_of_def int_val_def)
next
  fix a \<sigma>
  show "if fits P (Kind t) s
        then convertAssign P (Dyn (PtrTo t) (VPtr (Some a))) (Integer s) \<sigma> =
               Inr (None, \<sigma>(a := int_val (Kind t) s))
        else (\<exists>\<sigma>'. convertAssign P (Dyn (PtrTo t) (VPtr (Some a))) (Integer s) \<sigma> =
               Inr (Some ErrRange, \<sigma>'))"
    by (simp add: convertAssign_pointer_int [OF assms])
qed

theorem convertAssignInt_exact_or_range_witness:
  "(is_int_kind (Kind (Basic KInt8)) \<or> is_uint_kind (Kind (Basic KInt8))) \<and>
   fits P64 KInt8 100 \<and>
   convertAssign P64 (Dyn (PtrTo (Basic KInt8)) (VPtr (Some 0))) (Integer 100) sevens =
     Inr (None, sevens(0 := VInt 100)) \<and>
   \<not> fits P64 KInt8 200 \<and>
   (\<exists>\<sigma>'. convertAssign P64 (Dyn (PtrTo (Basic KInt8)) (VPtr (Some 0))) (Integer 200) sevens =
     Inr (Some ErrRange, \<sigma>')) \<and>
   addressable sevens (Elem_value (Basic KInt8) 0) \<and>
   (\<exists>\<sigma>'. convertAssignInt P64 (Elem_value (Basic KInt8) 0) 100 sevens = (None, \<sigma>') \<and>
      load \<sigma>' (Elem_value (Basic KInt8) 0) = VInt 100 \<and>
      Int_of \<sigma>' (Elem_value (Basic KInt8) 0) = 100) \<and>
   fst (convertAssignInt P64 (Elem_value (Basic KInt8) 0) 200 sevens) = Some ErrRange"
proof -
  have k: "is_int_kind (Kind (Basic KInt8)) \<or> is_uint_kind (Kind (Basic KInt8))"
    by (simp add: is_int_kind_def)
  have f1: "fits P64 KInt8 100" by (simp add: fits_def is_int_kind_def Bits_def)
  have f2: "\<not> fits P64 KInt8 200" by (simp add: fits_def is_int_kind_def Bits_def)
  have a: "addressable sevens (Elem_value (Basic KInt8) 0)"
    by (rule addressable_Elem_value)
  have r: "rtype (Elem_value (Basic KInt8) 0) = Basic KInt8"
    by (simp add: Elem_value_sel)
  note fit = convertAssignInt_exact_or_range [OF k, of P64 100]
  note wide = convertAssignInt_exact_or_range [OF k, of P64 200]
  have 1: "\<exists>\<sigma>'. convertAssignInt P64 (Elem_value (Basic KInt8) 0) 100 sevens = (None, \<sigma>') \<and>
      load \<sigma>' (Elem_value (Basic KInt8) 0) = VInt 100 \<and>
      Int_of \<sigma>' (Elem_value (Basic KInt8) 0) = 100"
    using fit [THEN conjunct1, rule_format, of "Elem_value (Basic KInt8) 0" sevens] r a f1
    by (simp add: int_val_def is_int_kind_def)
  have 2: "fst (convertAssignInt P64 (Elem_value (Basic KInt8) 0) 200 sevens) = Some ErrRange"
    using wide [THEN conjunct1, rule_format, of "Elem_value (Basic KInt8) 0" sevens] r a f2
    by simp
  show ?thesis
    using k f1 f2 a 1 2 fit [THEN conjunct2] wide [THEN conjunct2]
    by (simp add: int_val_def is_int_kind_def)
qed

text \<open>
  C10. When an \<^verbatim>\<open>int64\<close> source fails with \<^verbatim>\<open>strconv.ErrRange\<close> because it is too wide for
  a signed or unsigned destination, the destination is left holding zero; when it fails
  because it is negative and the destination is unsigned, the store is left as it was.
  The branch of \<^verbatim>\<open>convertAssign\<close> for \<^verbatim>\<open>*int\<close> leaves zero as well.
\<close>

theorem convertAssignInt_range_failure_state:
  assumes "addressable \<sigma> d"
  shows
    "(is_int_kind (Kind (rtype d)) \<and> \<not> fits P (Kind (rtype d)) s \<longrightarrow>
        convertAssignInt P d s \<sigma> = (Some ErrRange, store_at \<sigma> d (VInt 0)) \<and>
        load (store_at \<sigma> d (VInt 0)) d = VInt 0) \<and>
     (is_uint_kind (Kind (rtype d)) \<and> \<not> s <s 0 \<and> \<not> fits P (Kind (rtype d)) s \<longrightarrow>
        convertAssignInt P d s \<sigma> = (Some ErrRange, store_at \<sigma> d (VUint 0)) \<and>
        load (store_at \<sigma> d (VUint 0)) d = VUint 0) \<and>
     (is_uint_kind (Kind (rtype d)) \<and> s <s 0 \<longrightarrow>
        convertAssignInt P d s \<sigma> = (Some ErrRange, \<sigma>)) \<and>
     (\<not> fits P KInt s \<longrightarrow>
        convertAssign P (Dyn (PtrTo intT) (VPtr (Some a))) (Integer s) \<sigma> =
          Inr (Some ErrRange, \<sigma>(a := VInt 0))) \<and>
     (is_uint_kind (Kind t) \<and> s <s 0 \<longrightarrow>
        convertAssign P (Dyn (PtrTo t) (VPtr (Some a))) (Integer s) \<sigma> =
          Inr (Some ErrRange, \<sigma>))"
proof -
  have c1: "convertAssignInt P d s \<sigma> = (Some ErrRange, store_at \<sigma> d (VInt 0)) \<and>
        load (store_at \<sigma> d (VInt 0)) d = VInt 0"
    if h: "is_int_kind (Kind (rtype d)) \<and> \<not> fits P (Kind (rtype d)) s"
  proof -
    from h have k: "is_int_kind (Kind (rtype d))" by simp
    show ?thesis
      using h by (simp add: convertAssignInt_signed [OF k assms] load_store_at [OF assms])
  qed
  have c2: "convertAssignInt P d s \<sigma> = (Some ErrRange, store_at \<sigma> d (VUint 0)) \<and>
        load (store_at \<sigma> d (VUint 0)) d = VUint 0"
    if h: "is_uint_kind (Kind (rtype d)) \<and> \<not> s <s 0 \<and> \<not> fits P (Kind (rtype d)) s"
  proof -
    from h have k: "is_uint_kind (Kind (rtype d))" by simp
    show ?thesis
      using h by (simp add: convertAssignInt_unsigned [OF k assms] load_store_at [OF assms])
  qed
  have c3: "convertAssignInt P d s \<sigma> = (Some ErrRange, \<sigma>)"
    if h: "is_uint_kind (Kind (rtype d)) \<and> s <s 0"
  proof -
    from h have k: "is_uint_kind (Kind (rtype d))" by simp
    show ?thesis
      using h by (simp add: convertAssignInt_unsigned [OF k assms])
  qed
  have c4: "convertAssign P (Dyn (PtrTo intT) (VPtr (Some a))) (Integer s) \<sigma> =
          Inr (Some ErrRange, \<sigma>(a := VInt 0))"
    if h: "\<not> fits P KInt s"
  proof -
    have k: "is_int_kind (Kind intT) \<or> is_uint_kind (Kind intT)"
      by (simp add: is_int_kind_def)
    show ?thesis
      using h
      by (simp add: convertAssign_pointer_int [OF k] zero_kind_def is_int_kind_def
            is_uint_kind_def)
  qed
  have c5: "convertAssign P (Dyn (PtrTo t) (VPtr (Some a))) (Integer s) \<sigma> =
          Inr (Some ErrRange, \<sigma>)"
    if h: "is_uint_kind (Kind t) \<and> s <s 0"
  proof -
    from h have k: "is_int_kind (Kind t) \<or> is_uint_kind (Kind t)" by simp
    show ?thesis
      using h negative_not_fits [of "Kind t" s P]
      by (simp add: convertAssign_pointer_int [OF k])
  qed
  from c1 c2 c3 c4 c5 show ?thesis by blast
qed

theorem convertAssignInt_range_failure_state_witness:
  "addressable sevens (Elem_value (Basic KInt8) 0) \<and>
   is_int_kind KInt8 \<and> \<not> fits P64 KInt8 200 \<and>
   convertAssignInt P64 (Elem_value (Basic KInt8) 0) 200 sevens =
     (Some ErrRange, sevens(0 := VInt 0)) \<and>
   addressable sevens (Elem_value (Basic KUint8) 0) \<and>
   is_uint_kind KUint8 \<and> \<not> (300 :: 64 word) <s 0 \<and> \<not> fits P64 KUint8 300 \<and>
   convertAssignInt P64 (Elem_value (Basic KUint8) 0) 300 sevens =
     (Some ErrRange, sevens(0 := VUint 0)) \<and>
   (- 1 :: 64 word) <s 0 \<and>
   convertAssignInt P64 (Elem_value (Basic KUint8) 0) (- 1) sevens = (Some ErrRange, sevens) \<and>
   \<not> fits P32 KInt 4294967296 \<and>
   convertAssign P32 (Dyn (PtrTo intT) (VPtr (Some 0))) (Integer 4294967296) sevens =
     Inr (Some ErrRange, sevens(0 := VInt 0)) \<and>
   convertAssign P64 (Dyn (PtrTo (Basic KUint8)) (VPtr (Some 0))) (Integer (- 1)) sevens =
     Inr (Some ErrRange, sevens)"
proof -
  have a1: "addressable sevens (Elem_value (Basic KInt8) 0)"
    by (rule addressable_Elem_value)
  have a2: "addressable sevens (Elem_value (Basic KUint8) 0)"
    by (rule addressable_Elem_value)
  have f1: "\<not> fits P64 KInt8 200" by (simp add: fits_def is_int_kind_def Bits_def)
  have f2: "\<not> fits P64 KUint8 300" by (simp add: fits_def is_int_kind_def Bits_def)
  have f3: "\<not> fits P32 KInt 4294967296"
    by (simp add: fits_def is_int_kind_def Bits_def IntSize_def P32_def P64_def)
  have n1: "\<not> (300 :: 64 word) <s 0" by (simp add: word_sless_alt)
  have n2: "(- 1 :: 64 word) <s 0" by (simp add: word_sless_alt)
  show ?thesis
    using a1 a2 f1 f2 f3 n1 n2
      convertAssignInt_range_failure_state [OF a1, of P64 200 0 intT]
      convertAssignInt_range_failure_state [OF a2, of P64 300 0 intT]
      convertAssignInt_range_failure_state [OF a2, of P64 "- 1" 0 "Basic KUint8"]
      convertAssignInt_range_failure_state [OF a1, of P32 4294967296 0 intT]
    by (simp add: is_int_kind_def is_uint_kind_def store_at_Elem_value Elem_value_sel)
qed

section \<open>What a conversion may write\<close>

text \<open>
  Every conversion writes inside the variable its destination points into, and nowhere
  else; a destination that is no nil pointer never panics on a reply value.
\<close>

lemma convertAssign_Null: "convertAssign P d Null \<sigma> = Inr (None, \<sigma>)"
  by (simp add: convertAssign_def)

lemma convertAssign_Error: "convertAssign P d (Error e) \<sigma> = Inr (Some (ReplyError e), \<sigma>)"
  by (simp add: convertAssign_def)

lemma store_at_frame: "a \<noteq> raddr d \<Longrightarrow> store_at \<sigma> d x a = \<sigma> a"
  by (simp add: store_at_def)

lemma convertAssignBytes_frame:
  "a \<noteq> raddr d \<Longrightarrow> snd (convertAssignBytes P d s \<sigma>) a = \<sigma> a"
  by (simp add: convertAssignBytes_def Let_def SetFloat_def SetInt_def SetUint_def SetBool_def
        SetString_def SetBytes_def store_at_frame split: prod.splits)

lemma convertAssignInt_frame:
  "a \<noteq> raddr d \<Longrightarrow> snd (convertAssignInt P d s \<sigma>) a = \<sigma> a"
  by (simp add: convertAssignInt_def Let_def SetInt_def SetUint_def SetBool_def store_at_frame)

lemma convertAssignValues_loop_frame:
  "a \<noteq> raddr d \<Longrightarrow> snd (convertAssignValues_loop P d xs i \<sigma>) a = \<sigma> a"
proof (induction xs arbitrary: i \<sigma>)
  case Nil
  then show ?case by simp
next
  case (Cons x xs)
  have r: "a \<noteq> raddr (Index d i)" using Cons.prems by (simp add: Index_def)
  show ?case
    using Cons.prems
    by (cases x)
       (simp_all add: case_prod_beta Cons.IH convertAssignBytes_frame [OF r]
          convertAssignInt_frame [OF r])
qed

lemma convertAssignValues_frame:
  "a \<noteq> raddr d \<Longrightarrow> snd (convertAssignValues P d xs \<sigma>) a = \<sigma> a"
  by (simp add: convertAssignValues_def Let_def convertAssignValues_loop_frame SetLen_def store_at_frame)

lemma as_pointer_Some: "as_pointer d = Some (t, p) \<longleftrightarrow> d = Dyn (PtrTo t) (VPtr p)"
  by (auto simp: as_pointer_def split: iface.splits gotype.splits goval.splits)

lemma as_pointer_Dyn [simp]: "as_pointer (Dyn (PtrTo t) (VPtr p)) = Some (t, p)"
  by (simp add: as_pointer_def)

lemma ex_pair_snd: "(\<exists>x y. f = (x, y) \<and> Q y) = Q (snd f)"
  by (cases f) auto

lemma convertAssign_pointer:
  assumes "a \<noteq> b"
  shows "\<exists>r. convertAssign P (Dyn (PtrTo t) (VPtr (Some b))) s \<sigma> = Inr r \<and> snd r a = \<sigma> a"
proof -
  have r: "a \<noteq> raddr (Elem_value t b)" using assms by (simp add: Elem_value_sel)
  show ?thesis
    using assms
    by (cases s)
       (simp_all add: convertAssign_def assign_def Let_def case_prod_beta ex_pair_snd
          convertAssignBytes_frame [OF r] convertAssignInt_frame [OF r]
          convertAssignValues_frame [OF r])
qed

lemma convertAssign_frame:
  assumes "convertAssign P d s \<sigma> = Inr (err, \<sigma>')" and "target d \<noteq> Some a"
  shows "\<sigma>' a = \<sigma> a"
proof (cases "as_pointer d")
  case None
  then show ?thesis
    using assms by (cases s) (auto simp: convertAssign_def split: option.splits)
next
  case (Some tp)
  obtain t p where tp: "tp = (t, p)" by (cases tp)
  show ?thesis
  proof (cases p)
    case None
    then show ?thesis
      using assms Some tp
      by (cases s) (auto simp: convertAssign_def assign_def Let_def split: option.splits prod.splits if_splits)
  next
    case (Some b)
    with assms \<open>as_pointer d = Some tp\<close> tp have ne: "a \<noteq> b" by (auto simp: target_def)
    have d: "d = Dyn (PtrTo t) (VPtr (Some b))"
      using \<open>as_pointer d = Some tp\<close> tp Some by (simp add: as_pointer_Some)
    show ?thesis
      using convertAssign_pointer [OF ne, of P t s \<sigma>] assms(1) unfolding d by auto
  qed
qed

lemma convertAssign_no_panic:
  assumes "valid_dest d" and "is_reply s"
  shows "\<exists>err \<sigma>'. convertAssign P d s \<sigma> = Inr (err, \<sigma>')"
proof (cases "as_pointer d")
  case None
  then show ?thesis
    using assms by (cases s) (auto simp: convertAssign_def is_reply_def split: option.splits)
next
  case (Some tp)
  obtain t p where tp: "tp = (t, p)" by (cases tp)
  with Some assms obtain b where p: "p = Some b" by (cases p) (auto simp: valid_dest_def)
  have d: "d = Dyn (PtrTo t) (VPtr (Some b))"
    using Some tp p by (simp add: as_pointer_Some)
  show ?thesis
    using convertAssign_pointer [of "Suc b" b P t s \<sigma>] unfolding d by auto
qed

lemma Scan_loop_append:
  "Scan_loop P src (xs @ ys) i \<sigma> =
    (case Scan_loop P src xs i \<sigma> of
       Inl pn \<Rightarrow> Inl pn
     | Inr (err, \<sigma>1) \<Rightarrow>
         if err \<noteq> None then Inr (err, \<sigma>1) else Scan_loop P src ys (i + length xs) \<sigma>1)"
  by (induction xs arbitrary: i \<sigma>) (auto split: sum.splits)

lemma Scan_loop_frame:
  "Scan_loop P src ds i \<sigma> = Inr (err, \<sigma>') \<Longrightarrow> \<forall>d \<in> set ds. target d \<noteq> Some a \<Longrightarrow> \<sigma>' a = \<sigma> a"
proof (induction ds arbitrary: i \<sigma>)
  case Nil
  then show ?case by simp
next
  case (Cons d ds)
  from Cons.prems(1) obtain e1 \<sigma>1 where
    c: "convertAssign P d (src ! i) \<sigma> = Inr (e1, \<sigma>1)"
    by (auto split: sum.splits)
  have f: "\<sigma>1 a = \<sigma> a" using convertAssign_frame [OF c] Cons.prems(2) by simp
  show ?case
  proof (cases "e1 = None")
    case True
    with Cons.prems(1) c have "Scan_loop P src ds (Suc i) \<sigma>1 = Inr (err, \<sigma>')" by simp
    from Cons.IH [OF this] Cons.prems(2) f show ?thesis by simp
  next
    case False
    with Cons.prems(1) c f show ?thesis by auto
  qed
qed

lemma Scan_loop_no_panic:
  "\<forall>d \<in> set ds. valid_dest d \<Longrightarrow> \<forall>j < length ds. is_reply (src ! (i + j)) \<Longrightarrow>
   \<exists>err \<sigma>'. Scan_loop P src ds i \<sigma> = Inr (err, \<sigma>')"
proof (induction ds arbitrary: i \<sigma>)
  case Nil
  then show ?case by simp
next
  case (Cons d ds)
  have "is_reply (src ! i)" using Cons.prems(2) [rule_format, of 0] by simp
  with Cons.prems(1) obtain e1 \<sigma>1 where
    c: "convertAssign P d (src ! i) \<sigma> = Inr (e1, \<sigma>1)"
    using convertAssign_no_panic [of d "src ! i" P \<sigma>] by auto
  have "\<forall>j < length ds. is_reply (src ! (Suc i + j))"
    using Cons.prems(2) by (metis add_Suc_shift length_Cons not_less_eq)
  from Cons.IH [OF _ this, of \<sigma>1] Cons.prems(1)
  obtain err \<sigma>' where "Scan_loop P src ds (Suc i) \<sigma>1 = Inr (err, \<sigma>')" by auto
  with c show ?case by simp
qed

text \<open>
  A run of the loop that returns splits at the first destination whose conversion fails:
  the destinations before it convert without error, and the loop returns what that
  conversion returns.
\<close>

lemma Scan_loop_first_failure:
  "Scan_loop P src ds i \<sigma> = Inr (err, \<sigma>') \<Longrightarrow>
   \<exists>k \<sigma>k. k \<le> length ds \<and> Scan_loop P src (take k ds) i \<sigma> = Inr (None, \<sigma>k) \<and>
     (if k < length ds
      then convertAssign P (ds ! k) (src ! (i + k)) \<sigma>k = Inr (err, \<sigma>') \<and> err \<noteq> None
      else err = None \<and> \<sigma>' = \<sigma>k)"
proof (induction ds arbitrary: i \<sigma>)
  case Nil
  then show ?case by simp
next
  case (Cons d ds)
  from Cons.prems(1) obtain e1 \<sigma>1 where
    c: "convertAssign P d (src ! i) \<sigma> = Inr (e1, \<sigma>1)"
    by (auto split: sum.splits)
  show ?case
  proof (cases "e1 = None")
    case True
    with Cons.prems(1) c have "Scan_loop P src ds (Suc i) \<sigma>1 = Inr (err, \<sigma>')" by simp
    from Cons.IH [OF this] obtain k \<sigma>k where
      k: "k \<le> length ds" "Scan_loop P src (take k ds) (Suc i) \<sigma>1 = Inr (None, \<sigma>k)"
        "if k < length ds
         then convertAssign P (ds ! k) (src ! (Suc i + k)) \<sigma>k = Inr (err, \<sigma>') \<and> err \<noteq> None
         else err = None \<and> \<sigma>' = \<sigma>k"
      by blast
    show ?thesis
      apply (rule exI [of _ "Suc k"], rule exI [of _ \<sigma>k])
      using k c True by (auto split: if_splits)
  next
    case False
    with Cons.prems(1) c have "err = e1" "\<sigma>' = \<sigma>1" by auto
    with c False show ?thesis
      by (intro exI [of _ 0] exI [of _ \<sigma>]) simp
  qed
qed

section \<open>Scan\<close>

lemmas run_simps = ptr_def convertAssign_pointer_int fits_def Bits_def is_int_kind_def
  is_uint_kind_def int_val_def zero_kind_def IntSize_def P64_def P32_def

lemma Counter_compiled:
  "structSpecForType Map.empty Counter = Inr (Counter_spec, [Counter \<mapsto> Counter_spec])"
  by (simp add: structSpecForType_def Counter_def compileField_def Let_def Counter_spec_def
        fieldA_def)

text \<open>
  C6. \<^verbatim>\<open>Scan\<close> fails with the short-sequence error whenever the source has fewer values
  than there are destinations, whatever they are, and then writes nothing; whenever it
  returns no error, what it returns is the source without its first \<^verbatim>\<open>len(dest)\<close> values, of
  length \<^verbatim>\<open>len(src) - len(dest)\<close>.
\<close>

theorem Scan_short_or_remainder:
  "(length src < length dest \<longrightarrow> Scan P src dest \<sigma> = Inr ([], Some ScanShort, \<sigma>)) \<and>
   (\<forall>rest \<sigma>'. Scan P src dest \<sigma> = Inr (rest, None, \<sigma>') \<longrightarrow>
      length dest \<le> length src \<and> rest = drop (length dest) src \<and>
      length rest = length src - length dest)"
  by (auto simp: Scan_def split: if_splits sum.splits)

theorem Scan_short_or_remainder_witness:
  "length [Integer 5] < length [ptr int64T 0, ptr int64T 1] \<and>
   Scan P64 [Integer 5] [ptr int64T 0, ptr int64T 1] sevens = Inr ([], Some ScanShort, sevens) \<and>
   Scan P64 [Integer 3, Integer 7, Integer 9] [ptr int64T 0, ptr int64T 1] sevens =
     Inr ([Integer 9], None, sevens(0 := VInt 3, 1 := VInt 7)) \<and>
   length [Integer 9 :: iface] = length [Integer 3, Integer 7, Integer 9 :: iface] - length [ptr int64T 0, ptr int64T 1]"
proof -
  have s: "Scan P64 [Integer 3, Integer 7, Integer 9] [ptr int64T 0, ptr int64T 1] sevens =
     Inr ([Integer 9], None, sevens(0 := VInt 3, 1 := VInt 7))"
    by (simp add: Scan_def run_simps)
  show ?thesis
    using s Scan_short_or_remainder [of "[Integer 5]" "[ptr int64T 0, ptr int64T 1]" P64 sevens]
      Scan_short_or_remainder [of "[Integer 3, Integer 7, Integer 9]" "[ptr int64T 0, ptr int64T 1]" P64 sevens]
    by simp
qed

lemma ScanStruct_loop_Nulls:
  "ScanStruct_loop P ss rv (concat (map (\<lambda>n. [Bulk n, Null]) names)) \<sigma> = (None, \<sigma>)"
  by (induction names) (auto split: option.splits)

lemma Scan_loop_Nulls:
  "\<forall>j < length ds. src ! (i + j) = Null \<Longrightarrow> Scan_loop P src ds i \<sigma> = Inr (None, \<sigma>)"
proof (induction ds arbitrary: i)
  case Nil
  then show ?case by simp
next
  case (Cons d ds)
  have 0: "src ! i = Null" using Cons.prems [rule_format, of 0] by simp
  have "\<forall>j < length ds. src ! (Suc i + j) = Null"
    using Cons.prems by (metis add_Suc_shift length_Cons not_less_eq)
  from Cons.IH [OF this] 0 show ?case by (simp add: convertAssign_Null)
qed

text \<open>
  C4. A nil source value is skipped: \<^verbatim>\<open>convertAssign\<close> returns no error and leaves the store
  as it is, for every destination; in the loop of \<^verbatim>\<open>Scan\<close> and in the loop of \<^verbatim>\<open>ScanStruct\<close>
  a nil value is a step that changes nothing; a \<^verbatim>\<open>Scan\<close> whose destinations all meet nil,
  and a \<^verbatim>\<open>ScanStruct\<close> whose values are all nil, return no error and the store they were
  given.
\<close>

theorem Null_source_is_skipped:
  "convertAssign P d Null \<sigma> = Inr (None, \<sigma>) \<and>
   (src ! i = Null \<longrightarrow> Scan_loop P src (d # ds) i \<sigma> = Scan_loop P src ds (Suc i) \<sigma>) \<and>
   (length dest \<le> length src \<and> (\<forall>j < length dest. src ! j = Null) \<longrightarrow>
      Scan P src dest \<sigma> = Inr (drop (length dest) src, None, \<sigma>)) \<and>
   ScanStruct_loop P ss rv (Bulk name # Null # rest) \<sigma> = ScanStruct_loop P ss rv rest \<sigma> \<and>
   (structSpecForType c t = Inr (ss, c') \<longrightarrow>
      ScanStruct P (concat (map (\<lambda>n. [Bulk n, Null]) names))
        (Dyn (PtrTo t) (VPtr (Some a))) (\<sigma>, c) = Inr (None, \<sigma>, c'))"
proof -
  have e: "length (concat (map (\<lambda>n. [Bulk n, Null]) names)) mod 2 = 0"
    for names :: "string list"
    by (induction names) auto
  have 1: "Scan P src dest \<sigma> = Inr (drop (length dest) src, None, \<sigma>)"
    if "length dest \<le> length src \<and> (\<forall>j < length dest. src ! j = Null)"
    using that Scan_loop_Nulls [of dest src 0 P \<sigma>] by (simp add: Scan_def)
  have 2: "ScanStruct P (concat (map (\<lambda>n. [Bulk n, Null]) names))
               (Dyn (PtrTo t) (VPtr (Some a))) (\<sigma>, c) = Inr (None, \<sigma>, c')"
    if "structSpecForType c t = Inr (ss, c')"
    using that by (simp add: ScanStruct_def e ScanStruct_loop_Nulls)
  show ?thesis
    using 1 2 by (simp add: convertAssign_Null split: option.splits)
qed

theorem Null_source_is_skipped_witness:
  "[Null, Null, Integer 1] ! 0 = Null \<and>
   Scan P64 [Null, Null, Integer 1] [ptr intT 0, ptr stringT 1] sevens =
     Inr ([Integer 1], None, sevens) \<and>
   ss_m Counter_spec ''A'' = Some fieldA \<and>
   ScanStruct_loop P64 Counter_spec (Elem_value Counter 0) [Bulk ''A'', Null] Counter_zero = (None, Counter_zero) \<and>
   structSpecForType Map.empty Counter = Inr (Counter_spec, [Counter \<mapsto> Counter_spec]) \<and>
   ScanStruct P64 [Bulk ''A'', Null] (ptr Counter 0) (Counter_zero, Map.empty) =
     Inr (None, Counter_zero, [Counter \<mapsto> Counter_spec])"
proof -
  have m: "ss_m Counter_spec ''A'' = Some fieldA" by (simp add: Counter_spec_def)
  show ?thesis
    using Counter_compiled m
      Null_source_is_skipped
        [of P64 "ptr intT 0" sevens "[Null, Null, Integer 1]" 0 "[ptr stringT 1]"
            "[ptr intT 0, ptr stringT 1]" Counter_spec "Elem_value Counter 0" "''A''" "[]"
            Map.empty Counter "[Counter \<mapsto> Counter_spec]" "[''A'']" 0]
      Null_source_is_skipped
        [of P64 "ptr intT 0" Counter_zero "[Null, Null, Integer 1]" 0 "[ptr stringT 1]"
            "[ptr intT 0, ptr stringT 1]" Counter_spec "Elem_value Counter 0" "''A''" "[]"
            Map.empty Counter "[Counter \<mapsto> Counter_spec]" "[''A'']" 0]
    by (simp add: nth_Cons' ptr_def)
qed

text \<open>
  C5, as the code has it. In \<^verbatim>\<open>Scan\<close>, a source value of type \<^verbatim>\<open>Error\<close> makes the conversion
  fail with that very value, for every destination, and \<^verbatim>\<open>Scan\<close> returns it when the
  destinations before it converted without error. In \<^verbatim>\<open>ScanStruct\<close>, an \<^verbatim>\<open>Error\<close> value
  paired with the name of a compiled field falls to the default branch of the switch and
  the failure is the cannot-convert error, not the value; paired with an unknown name it
  is skipped.
\<close>

theorem Error_source_propagation:
  "convertAssign P d (Error e) \<sigma> = Inr (Some (ReplyError e), \<sigma>) \<and>
   (k < length dest \<and> length dest \<le> length src \<and> src ! k = Error e \<and>
    Scan_loop P src (take k dest) 0 \<sigma> = Inr (None, \<sigma>k) \<longrightarrow>
      Scan P src dest \<sigma> = Inr (drop (length dest) src, Some (ReplyError e), \<sigma>k)) \<and>
   (ss_m ss name = Some fs \<longrightarrow>
      ScanStruct_loop P ss rv (Bulk name # Error e # rest) \<sigma> =
        (Some (CannotConvert (Some ErrorT) (type_at (rtype rv) (fs_index fs))), \<sigma>)) \<and>
   (ss_m ss name = None \<longrightarrow>
      ScanStruct_loop P ss rv (Bulk name # Error e # rest) \<sigma> = ScanStruct_loop P ss rv rest \<sigma>)"
proof -
  have 1: "Scan P src dest \<sigma> = Inr (drop (length dest) src, Some (ReplyError e), \<sigma>k)"
    if h: "k < length dest \<and> length dest \<le> length src \<and> src ! k = Error e \<and>
       Scan_loop P src (take k dest) 0 \<sigma> = Inr (None, \<sigma>k)"
  proof -
    have d: "dest = take k dest @ (dest ! k # drop (Suc k) dest)"
      using h by (simp add: id_take_nth_drop [symmetric])
    have "Scan_loop P src dest 0 \<sigma> = Inr (Some (ReplyError e), \<sigma>k)"
      using h by (subst d, simp add: Scan_loop_append convertAssign_Error min_def)
    then show ?thesis using h by (simp add: Scan_def)
  qed
  show ?thesis
    using 1 by (simp add: convertAssign_Error cannotConvert_def FieldByIndex_def)
qed

theorem Error_source_propagation_witness:
  "Scan P64 [Integer 5, Error ''ERR'', Integer 9] [ptr int64T 0, ptr int64T 1, ptr int64T 2] sevens =
     Inr ([], Some (ReplyError ''ERR''), sevens(0 := VInt 5)) \<and>
   ss_m Counter_spec ''A'' = Some fieldA \<and>
   ScanStruct_loop P64 Counter_spec (Elem_value Counter 0) [Bulk ''A'', Error ''ERR''] Counter_zero =
     (Some (CannotConvert (Some ErrorT) intT), Counter_zero) \<and>
   ss_m Counter_spec ''Z'' = None \<and>
   ScanStruct_loop P64 Counter_spec (Elem_value Counter 0) [Bulk ''Z'', Error ''ERR''] Counter_zero =
     (None, Counter_zero)"
proof -
  have p: "Scan_loop P64 [Integer 5, Error ''ERR'', Integer 9]
      (take 1 [ptr int64T 0, ptr int64T 1, ptr int64T 2]) 0 sevens = Inr (None, sevens(0 := VInt 5))"
    by (simp add: run_simps)
  have m: "ss_m Counter_spec ''A'' = Some fieldA" "ss_m Counter_spec ''Z'' = None"
    by (simp_all add: Counter_spec_def)
  have t: "type_at (rtype (Elem_value Counter 0)) (fs_index fieldA) = intT"
    by (simp add: Elem_value_def fieldA_def Counter_def)
  show ?thesis
    using p m t
      Error_source_propagation
        [of P64 Null "''ERR''" sevens 1 "[ptr int64T 0, ptr int64T 1, ptr int64T 2]"
            "[Integer 5, Error ''ERR'', Integer 9]" "sevens(0 := VInt 5)"
            Counter_spec "''A''" fieldA "Elem_value Counter 0" "[]"]
      Error_source_propagation
        [of P64 Null "''ERR''" Counter_zero 1 "[ptr int64T 0, ptr int64T 1, ptr int64T 2]"
            "[Integer 5, Error ''ERR'', Integer 9]" "sevens(0 := VInt 5)"
            Counter_spec "''A''" fieldA "Elem_value Counter 0" "[]"]
      Error_source_propagation
        [of P64 Null "''ERR''" Counter_zero 1 "[ptr int64T 0, ptr int64T 1, ptr int64T 2]"
            "[Integer 5, Error ''ERR'', Integer 9]" "sevens(0 := VInt 5)"
            Counter_spec "''Z''" fieldA "Elem_value Counter 0" "[]"]
    by simp
qed

text \<open>
  C5 as stated fails in \<^verbatim>\<open>ScanStruct\<close>: scanning the pair \<^verbatim>\<open>"A"\<close>, \<^verbatim>\<open>Error("ERR")\<close> into a
  \<^verbatim>\<open>Counter\<close> returns the cannot-convert error.
\<close>

theorem Error_in_ScanStruct_counterexample:
  "map_sum id fst (ScanStruct P64 [Bulk ''A'', Error ''ERR''] (ptr Counter 0) (Counter_zero, Map.empty)) =
     Inr (Some (CannotConvert (Some ErrorT) intT)) \<and>
   CannotConvert (Some ErrorT) intT \<noteq> ReplyError ''ERR''"
  by (simp add: ScanStruct_def ptr_def Counter_compiled)
     (simp add: Counter_spec_def fieldA_def cannotConvert_def FieldByIndex_def Elem_value_def
        Counter_def)

text \<open>
  C9, as the code has it. When the destinations are no nil pointers and the sources are
  reply values, \<^verbatim>\<open>Scan\<close> returns, with the rest of the source, whatever the conversions
  did: there is a first position \<open>k\<close> where a conversion fails (or \<open>k\<close> is the number of
  destinations and there is no error), the destinations before \<open>k\<close> converted without
  error, and the result is that of the conversion at \<open>k\<close>. A variable that none of the
  destinations up to \<open>k\<close> points to is left as it was: so are the destinations after \<open>k\<close>,
  unless one of them is also pointed to earlier. A variable keeps the value it had after
  conversion \<open>j\<close> when no destination after \<open>j\<close> and up to \<open>k\<close> points to it: so do the
  destinations before the failure, unless a later one points to the same variable.
\<close>

theorem Scan_stops_at_first_failure:
  assumes len: "length dest \<le> length src"
    and ok: "\<forall>d \<in> set dest. valid_dest d"
    and rep: "\<forall>j < length dest. is_reply (src ! j)"
  shows "\<exists>k err \<sigma>' \<sigma>k.
      Scan P src dest \<sigma> = Inr (drop (length dest) src, err, \<sigma>') \<and>
      k \<le> length dest \<and>
      Scan_loop P src (take k dest) 0 \<sigma> = Inr (None, \<sigma>k) \<and>
      (if k < length dest
       then convertAssign P (dest ! k) (src ! k) \<sigma>k = Inr (err, \<sigma>') \<and> err \<noteq> None
       else err = None \<and> \<sigma>' = \<sigma>k) \<and>
      (\<forall>a. (\<forall>j < length dest. j \<le> k \<longrightarrow> target (dest ! j) \<noteq> Some a) \<longrightarrow> \<sigma>' a = \<sigma> a) \<and>
      (\<forall>j < k. \<exists>\<sigma>j. Scan_loop P src (take (Suc j) dest) 0 \<sigma> = Inr (None, \<sigma>j) \<and>
         (\<forall>a. (\<forall>i < length dest. j < i \<and> i \<le> k \<longrightarrow> target (dest ! i) \<noteq> Some a) \<longrightarrow>
              \<sigma>' a = \<sigma>j a))"
proof -
  from Scan_loop_no_panic [OF ok, of src 0 P \<sigma>] rep
  obtain err \<sigma>' where run: "Scan_loop P src dest 0 \<sigma> = Inr (err, \<sigma>')" by auto
  from Scan_loop_first_failure [OF run, unfolded add_0] obtain k \<sigma>k where
    k: "k \<le> length dest" and pre: "Scan_loop P src (take k dest) 0 \<sigma> = Inr (None, \<sigma>k)"
    and last: "if k < length dest
       then convertAssign P (dest ! k) (src ! k) \<sigma>k = Inr (err, \<sigma>') \<and> err \<noteq> None
       else err = None \<and> \<sigma>' = \<sigma>k"
    by auto
  have scan: "Scan P src dest \<sigma> = Inr (drop (length dest) src, err, \<sigma>')"
    using len run by (simp add: Scan_def)
  text \<open>from any intermediate store on\<close>
  have tail: "\<sigma>' a = \<sigma>j a"
    if mk: "m \<le> k"
      and seg: "Scan_loop P src (drop m (take k dest)) m \<sigma>j = Inr (None, \<sigma>k)"
      and fr: "\<forall>i < length dest. m \<le> i \<and> i \<le> k \<longrightarrow> target (dest ! i) \<noteq> Some a"
    for m \<sigma>j a
  proof -
    have "\<forall>d \<in> set (drop m (take k dest)). target d \<noteq> Some a"
    proof
      fix d assume "d \<in> set (drop m (take k dest))"
      then obtain n where n: "n < length (drop m (take k dest))" "d = drop m (take k dest) ! n"
        by (auto simp: in_set_conv_nth)
      then have "d = dest ! (m + n)" "m + n < k" "m + n < length dest"
        using k by auto
      with fr show "target d \<noteq> Some a" by simp
    qed
    from Scan_loop_frame [OF seg this] have 1: "\<sigma>k a = \<sigma>j a" .
    show ?thesis
    proof (cases "k < length dest")
      case True
      with last have c: "convertAssign P (dest ! k) (src ! k) \<sigma>k = Inr (err, \<sigma>')" by simp
      have "target (dest ! k) \<noteq> Some a"
        using fr True mk by simp
      from convertAssign_frame [OF c this] 1 show ?thesis by simp
    next
      case False
      with last 1 show ?thesis by simp
    qed
  qed
  have frame: "\<forall>a. (\<forall>j < length dest. j \<le> k \<longrightarrow> target (dest ! j) \<noteq> Some a) \<longrightarrow> \<sigma>' a = \<sigma> a"
    using tail [of 0 \<sigma>] pre by simp
  have keep: "\<exists>\<sigma>j. Scan_loop P src (take (Suc j) dest) 0 \<sigma> = Inr (None, \<sigma>j) \<and>
         (\<forall>a. (\<forall>i < length dest. j < i \<and> i \<le> k \<longrightarrow> target (dest ! i) \<noteq> Some a) \<longrightarrow>
              \<sigma>' a = \<sigma>j a)" if j: "j < k" for j
  proof -
    have sp: "take k dest = take (Suc j) dest @ drop (Suc j) (take k dest)"
      using j by (metis Suc_leI append_take_drop_id min.absorb2 take_take min.commute)
    have l: "min (length dest) (Suc j) = Suc j" using j k by simp
    have full: "Scan_loop P src (take (Suc j) dest @ drop (Suc j) (take k dest)) 0 \<sigma> =
        Inr (None, \<sigma>k)"
      by (subst sp [symmetric]) (rule pre)
    have "\<exists>\<sigma>j. Scan_loop P src (take (Suc j) dest) 0 \<sigma> = Inr (None, \<sigma>j) \<and>
        Scan_loop P src (drop (Suc j) (take k dest)) (Suc j) \<sigma>j = Inr (None, \<sigma>k)"
      using full by (auto simp: Scan_loop_append l split: sum.splits if_splits)
    then obtain \<sigma>j where
      a1: "Scan_loop P src (take (Suc j) dest) 0 \<sigma> = Inr (None, \<sigma>j)" and
      a2: "Scan_loop P src (drop (Suc j) (take k dest)) (Suc j) \<sigma>j = Inr (None, \<sigma>k)"
      by blast
    show ?thesis
      using a1 tail [OF _ a2] j by (intro exI [of _ \<sigma>j]) (simp add: Suc_le_eq)
  qed
  show ?thesis
    using scan k pre last frame keep by blast
qed

theorem Scan_stops_at_first_failure_witness:
  "Scan P64 wide_second three_int32s sevens =
     Inr ([], Some ErrRange, sevens(0 := VInt 5, 1 := VInt 0)) \<and>
   (\<exists>k err \<sigma>' \<sigma>k.
      Scan P64 wide_second three_int32s sevens =
        Inr (drop (length three_int32s) wide_second, err, \<sigma>') \<and>
      k \<le> length three_int32s \<and>
      Scan_loop P64 wide_second (take k three_int32s) 0 sevens = Inr (None, \<sigma>k) \<and>
      (if k < length three_int32s
       then convertAssign P64 (three_int32s ! k) (wide_second ! k) \<sigma>k = Inr (err, \<sigma>') \<and>
            err \<noteq> None
       else err = None \<and> \<sigma>' = \<sigma>k) \<and>
      (\<forall>a. (\<forall>j < length three_int32s. j \<le> k \<longrightarrow> target (three_int32s ! j) \<noteq> Some a) \<longrightarrow>
           \<sigma>' a = sevens a) \<and>
      (\<forall>j < k. \<exists>\<sigma>j. Scan_loop P64 wide_second (take (Suc j) three_int32s) 0 sevens =
                        Inr (None, \<sigma>j) \<and>
         (\<forall>a. (\<forall>i < length three_int32s. j < i \<and> i \<le> k \<longrightarrow>
                   target (three_int32s ! i) \<noteq> Some a) \<longrightarrow>
              \<sigma>' a = \<sigma>j a)))"
proof -
  have s: "Scan P64 wide_second three_int32s sevens =
     Inr ([], Some ErrRange, sevens(0 := VInt 5, 1 := VInt 0))"
    by (simp add: Scan_def run_simps wide_second_def three_int32s_def)
  have l: "length three_int32s \<le> length wide_second"
    by (simp add: wide_second_def three_int32s_def)
  have v: "\<forall>d \<in> set three_int32s. valid_dest d"
    by (simp add: valid_dest_def ptr_def three_int32s_def)
  have r: "\<forall>j < length three_int32s. is_reply (wide_second ! j)"
    by (simp add: is_reply_def nth_Cons' All_less_Suc numeral_3_eq_3 wide_second_def
          three_int32s_def)
  show ?thesis
    by (rule conjI [OF s Scan_stops_at_first_failure [OF l v r]])
qed

text \<open>
  C9 as stated fails when two destinations point to one variable: the first conversion
  stores 5, the second fails on \<open>2 ^ 40\<close> and leaves 0 in the same variable.
\<close>

theorem Scan_aliased_destinations_counterexample:
  "Scan_loop P64 [Integer 5, Integer 1099511627776]
     (take 1 [ptr (Basic KInt32) 0, ptr (Basic KInt32) 0]) 0 sevens =
     Inr (None, sevens(0 := VInt 5)) \<and>
   Scan P64 [Integer 5, Integer 1099511627776] [ptr (Basic KInt32) 0, ptr (Basic KInt32) 0] sevens =
     Inr ([], Some ErrRange, sevens(0 := VInt 0)) \<and>
   (sevens(0 := VInt 0)) 0 \<noteq> VInt 5"
  by (simp add: Scan_def run_simps)

section \<open>The compiled struct specification\<close>

text \<open>
  A compilation that returns has treated the candidates one after the other.
\<close>

lemma split_comma_nonempty: "split_comma s \<noteq> []"
  by (induction s) (auto simp: Let_def)

lemma compileField_record:
  assumes "compileField tn nm tag i depth index ss = Inr r"
  shows "r = foldl record_field (depth, ss)
               (if hd (split_comma tag) = ''-'' then []
                else [\<lparr>fs_name = resolved_name nm tag, fs_index = index @ [i]\<rparr>])"
  using assms split_comma_nonempty [of tag]
  by (auto simp: compileField_def Let_def record_field_def depth_of_def resolved_name_def
      split: if_splits)

lemma compile_is_fold:
  "compileStructSpec t depth index ss = Inr r \<Longrightarrow>
     r = foldl record_field (depth, ss) (candidates t index)"
  "compileStructSpec_loop tn fs i depth index ss = Inr r \<Longrightarrow>
     r = foldl record_field (depth, ss) (candidates_loop fs i index)"
proof (induction t depth index ss and tn fs i depth index ss arbitrary: r and r
    rule: compileStructSpec_compileStructSpec_loop.induct)
  case (9 tn nm pkg anon t tag fs i depth index ss)
  show ?case
  proof (cases "pkg \<noteq> []")
    case True
    with 9 show ?thesis by simp
  next
    case exported: False
    show ?thesis
    proof (cases anon)
      case True
      show ?thesis
      proof (cases "Kind t = KStruct")
        case s: True
        from "9.prems" exported True s obtain depth' ss' where
          a: "compileStructSpec t depth (index @ [i]) ss = Inr (depth', ss')" and
          b: "compileStructSpec_loop tn fs (Suc i) depth' index ss' = Inr r"
          by (auto split: sum.splits)
        from "9.IH"(2) [OF _ True s a] exported
        have 1: "(depth', ss') = foldl record_field (depth, ss) (candidates t (index @ [i]))"
          by simp
        from "9.IH"(3) [OF _ True s a _ b] exported
        have 2: "r = foldl record_field (depth', ss') (candidates_loop fs (Suc i) index)"
          by simp
        show ?thesis using 1 2 exported True s by simp
      next
        case False
        with 9 exported True show ?thesis by simp
      qed
    next
      case False
      from "9.prems" exported False obtain depth' ss' where
        a: "compileField tn nm tag i depth index ss = Inr (depth', ss')" and
        b: "compileStructSpec_loop tn fs (Suc i) depth' index ss' = Inr r"
        by (auto split: sum.splits)
      from "9.IH"(5) [OF _ False a _ b] exported
      have 2: "r = foldl record_field (depth', ss') (candidates_loop fs (Suc i) index)"
        by simp
      show ?thesis
        using compileField_record [OF a] 2 exported False by simp
    qed
  qed
qed simp_all

lemma named_snoc:
  "named n (cs @ [c]) = (if fs_name c = n then named n cs @ [c] else named n cs)"
  by (simp add: named_def)

lemma min_depth_snoc:
  "fs_name c = n \<Longrightarrow>
   min_depth n (cs @ [c]) =
     (if named n cs = [] then depth_of c else min (depth_of c) (min_depth n cs))"
  by (simp add: min_depth_def named_snoc)

lemma min_depth_snoc_other: "fs_name c \<noteq> n \<Longrightarrow> min_depth n (cs @ [c]) = min_depth n cs"
  by (simp add: min_depth_def named_snoc)

lemma min_depth_le: "c \<in> set (named n cs) \<Longrightarrow> min_depth n cs \<le> depth_of c"
  by (simp add: min_depth_def)

lemma shallowest_nonempty: "named n cs \<noteq> [] \<Longrightarrow> shallowest n cs \<noteq> []"
proof -
  assume ne: "named n cs \<noteq> []"
  then have "Min (set (map depth_of (named n cs))) \<in> set (map depth_of (named n cs))"
    by (intro Min_in) auto
  then obtain c where "c \<in> set (named n cs)" "depth_of c = min_depth n cs"
    by (auto simp: min_depth_def)
  then show ?thesis by (auto simp: shallowest_def filter_empty_conv)
qed

lemma shallowest_snoc_other:
  "fs_name c \<noteq> n \<Longrightarrow> shallowest n (cs @ [c]) = shallowest n cs"
  by (simp add: shallowest_def named_snoc min_depth_def)

lemma shallowest_snoc_first:
  "fs_name c = n \<Longrightarrow> named n cs = [] \<Longrightarrow> shallowest n (cs @ [c]) = [c]"
  by (simp add: shallowest_def named_snoc min_depth_def)

lemma shallowest_snoc_same:
  assumes "fs_name c = n" "named n cs \<noteq> []" "depth_of c = min_depth n cs"
  shows "shallowest n (cs @ [c]) = shallowest n cs @ [c]"
  using assms by (simp add: shallowest_def named_snoc min_depth_snoc)

lemma shallowest_snoc_deeper:
  assumes "fs_name c = n" "named n cs \<noteq> []" "min_depth n cs < depth_of c"
  shows "shallowest n (cs @ [c]) = shallowest n cs"
  using assms by (simp add: shallowest_def named_snoc min_depth_snoc min_def)

lemma shallowest_snoc_shallower:
  assumes "fs_name c = n" "named n cs \<noteq> []" "depth_of c < min_depth n cs"
  shows "shallowest n (cs @ [c]) = [c]"
proof -
  have "filter (\<lambda>e. depth_of e = depth_of c) (named n cs) = []"
    using assms(3) by (auto simp: filter_empty_conv dest: min_depth_le)
  then show ?thesis
    using assms by (simp add: shallowest_def named_snoc min_depth_snoc min_def)
qed

lemma resolve_two: "length xs \<ge> 2 \<Longrightarrow> (case xs of [c] \<Rightarrow> Some c | _ \<Rightarrow> None) = None"
  by (cases xs; cases "tl xs") auto

text \<open>
  After any number of candidates, and for every name, the depth map holds the least depth
  seen and the name map the candidate the shadowing rule resolves the name to.
\<close>

lemma fold_invariant:
  assumes "\<forall>c \<in> set cs. depth_of c < 2 ^ 30"
    and "foldl record_field (Map.empty, \<lparr>ss_m = Map.empty, ss_l = []\<rparr>) cs = (depth, ss)"
  shows "depth n = (if named n cs = [] then None else Some (min_depth n cs)) \<and>
         ss_m ss n = resolve n cs"
  using assms
proof (induction cs arbitrary: depth ss rule: rev_induct)
  case Nil
  then show ?case by (auto simp: named_def resolve_def shallowest_def)
next
  case (snoc c cs)
  obtain depth0 ss0 where
    st: "foldl record_field (Map.empty, \<lparr>ss_m = Map.empty, ss_l = []\<rparr>) cs = (depth0, ss0)"
    by (cases "foldl record_field (Map.empty, \<lparr>ss_m = Map.empty, ss_l = []\<rparr>) cs")
  from snoc.IH [OF _ st] snoc.prems(1)
  have ih: "depth0 n = (if named n cs = [] then None else Some (min_depth n cs))"
    "ss_m ss0 n = resolve n cs" by auto
  from snoc.prems(2) st have step: "record_field (depth0, ss0) c = (depth, ss)" by simp
  have bound: "depth_of c < 2 ^ 30" using snoc.prems(1) by simp
  show ?case
  proof (cases "fs_name c = n")
    case False
    then have "depth n = depth0 n" "ss_m ss n = ss_m ss0 n"
      using step by (auto simp: record_field_def Let_def split: if_splits)
    with ih False show ?thesis
      by (simp add: named_snoc resolve_def shallowest_snoc_other min_depth_snoc_other)
  next
    case True
    show ?thesis
    proof (cases "named n cs = []")
      case first: True
      with ih True have "depth0 (fs_name c) = None" by simp
      with step bound have "depth n = Some (depth_of c)" "ss_m ss n = Some c"
        using True by (auto simp: record_field_def Let_def split: if_splits)
      then show ?thesis
        using True first
        by (simp add: named_snoc min_depth_snoc resolve_def shallowest_snoc_first)
    next
      case more: False
      with ih True have d0: "depth0 (fs_name c) = Some (min_depth n cs)" by simp
      consider (same) "depth_of c = min_depth n cs" | (less) "depth_of c < min_depth n cs"
        | (greater) "min_depth n cs < depth_of c" by linarith
      then show ?thesis
      proof cases
        case same
        with step d0 True have "depth n = depth0 n" "ss_m ss n = None"
          by (auto simp: record_field_def Let_def split: if_splits)
        moreover have "length (shallowest n cs @ [c]) \<ge> 2"
          using shallowest_nonempty [OF more] by (cases "shallowest n cs") auto
        ultimately show ?thesis
          using True more same ih
          by (simp add: named_snoc min_depth_snoc resolve_def shallowest_snoc_same resolve_two)
      next
        case less
        with step d0 True have "depth n = Some (depth_of c)" "ss_m ss n = Some c"
          by (auto simp: record_field_def Let_def split: if_splits)
        then show ?thesis
          using True more less
          by (simp add: named_snoc min_depth_snoc resolve_def shallowest_snoc_shallower min_def)
      next
        case greater
        with step d0 True have "depth n = depth0 n" "ss_m ss n = ss_m ss0 n"
          by (auto simp: record_field_def Let_def split: if_splits)
        then show ?thesis
          using True more greater ih
          by (simp add: named_snoc min_depth_snoc resolve_def shallowest_snoc_deeper min_def)
      qed
    qed
  qed
qed

text \<open>
  C1. In the name map of a compiled spec, every name is resolved by depth: it maps to
  the one candidate of that name at the least depth; when two or more candidates share
  the least depth the name is absent, neither is kept; a shallower candidate wins over a
  deeper one whichever comes first in the traversal. The nesting is taken below
  \<open>2 ^ 30\<close>, the depth the code uses for a name not seen yet.
\<close>

theorem compileStructSpec_shadowing:
  assumes "compileStructSpec t Map.empty [] \<lparr>ss_m = Map.empty, ss_l = []\<rparr> = Inr (depth, ss)"
    and "\<forall>c \<in> set (candidates t []). depth_of c < 2 ^ 30"
  shows "ss_m ss n = resolve n (candidates t []) \<and>
    (2 \<le> length (shallowest n (candidates t [])) \<longrightarrow> ss_m ss n = None) \<and>
    (\<forall>c. shallowest n (candidates t []) = [c] \<longrightarrow> ss_m ss n = Some c) \<and>
    (named n (candidates t []) = [] \<longrightarrow> ss_m ss n = None)"
proof -
  have f: "foldl record_field (Map.empty, \<lparr>ss_m = Map.empty, ss_l = []\<rparr>) (candidates t []) =
      (depth, ss)"
    using compile_is_fold(1) [OF assms(1)] by simp
  have r: "ss_m ss n = resolve n (candidates t [])"
    using fold_invariant [OF assms(2) f, of n] by simp
  show ?thesis
    unfolding r
    by (auto simp: resolve_def resolve_two shallowest_def)
qed

lemma candidates_Shadow:
  "candidates Shadow [] =
    [\<lparr>fs_name = ''D'', fs_index = [0]\<rparr>, \<lparr>fs_name = ''A'', fs_index = [1, 0]\<rparr>,
     \<lparr>fs_name = ''B'', fs_index = [1, 1]\<rparr>, \<lparr>fs_name = ''D'', fs_index = [1, 2]\<rparr>,
     \<lparr>fs_name = ''A'', fs_index = [2, 0]\<rparr>, \<lparr>fs_name = ''B'', fs_index = [3]\<rparr>]"
  by (simp add: Shadow_def In1_def In2_def resolved_name_def)

theorem compileStructSpec_shadowing_witness:
  "\<exists>depth ss.
     compileStructSpec Shadow Map.empty [] \<lparr>ss_m = Map.empty, ss_l = []\<rparr> = Inr (depth, ss) \<and>
     ss_m ss ''A'' = None \<and>
     ss_m ss ''B'' = Some \<lparr>fs_name = ''B'', fs_index = [3]\<rparr> \<and>
     ss_m ss ''D'' = Some \<lparr>fs_name = ''D'', fs_index = [0]\<rparr> \<and>
     ss_m ss ''Z'' = None"
proof -
  obtain depth ss where
    c: "compileStructSpec Shadow Map.empty [] \<lparr>ss_m = Map.empty, ss_l = []\<rparr> = Inr (depth, ss)"
    by (simp add: Shadow_def In1_def In2_def compileField_def Let_def)
  have b: "\<forall>c \<in> set (candidates Shadow []). depth_of c < 2 ^ 30"
    by (simp add: candidates_Shadow depth_of_def)
  have "ss_m ss ''A'' = None"
    using compileStructSpec_shadowing [OF c b, of "''A''"]
    by (simp add: candidates_Shadow resolve_def shallowest_def named_def min_depth_def depth_of_def)
  moreover have "ss_m ss ''B'' = Some \<lparr>fs_name = ''B'', fs_index = [3]\<rparr>"
    using compileStructSpec_shadowing [OF c b, of "''B''"]
    by (simp add: candidates_Shadow resolve_def shallowest_def named_def min_depth_def depth_of_def)
  moreover have "ss_m ss ''D'' = Some \<lparr>fs_name = ''D'', fs_index = [0]\<rparr>"
    using compileStructSpec_shadowing [OF c b, of "''D''"]
    by (simp add: candidates_Shadow resolve_def shallowest_def named_def min_depth_def depth_of_def)
  moreover have "ss_m ss ''Z'' = None"
    using compileStructSpec_shadowing [OF c b, of "''Z''"]
    by (simp add: candidates_Shadow resolve_def shallowest_def named_def min_depth_def depth_of_def)
  ultimately show ?thesis using c by blast
qed

section \<open>ScanStruct on the output of AppendStruct\<close>

lemma AppendStruct_loop_flatten:
  "AppendStruct_loop t v l args = args @ flatten_pairs t v l"
  by (induction l arbitrary: args) (simp_all add: flatten_pairs_def)

lemma flatten_pairs_even: "length (flatten_pairs t v l) mod 2 = 0"
  by (induction l) (simp_all add: flatten_pairs_def)

lemma ScanStruct_loop_flatten:
  "ScanStruct_loop P ss d (flatten_pairs t v l) \<sigma> =
     (if l = [] then None else Some ScanStructKey, \<sigma>)"
  by (cases l) (simp_all add: flatten_pairs_def)

lemma structSpecForType_cached:
  "structSpecForType c t = Inr (ss, c') \<Longrightarrow> structSpecForType c' t = Inr (ss, c')"
  by (auto simp: structSpecForType_def split: option.splits sum.splits)

lemma struct_not_pointer: "Kind t = KStruct \<Longrightarrow> as_pointer (Dyn t v) = None"
  by (cases t) (simp_all add: as_pointer_def)

text \<open>
  C3, as the code has it. \<^verbatim>\<open>AppendStruct\<close> on an empty argument list succeeds for a struct
  or a pointer to one and returns, for each entry of the compiled list in order, the name
  as a Go string and the value of the field. \<^verbatim>\<open>ScanStruct\<close> takes a name only as a bulk
  string: given that sequence as it is, it fails on the first key and leaves the
  destination as it was, and it succeeds only when the list is empty.
\<close>

theorem AppendStruct_then_ScanStruct:
  assumes "structSpecForType c t = Inr (ss, c')" and "Kind t = KStruct"
  shows "AppendStruct [] (ptr t a) (\<sigma>, c) = Inr (flatten_pairs t (\<sigma> a) (ss_l ss), None, c') \<and>
         AppendStruct [] (Dyn t v) (\<sigma>, c) = Inr (flatten_pairs t v (ss_l ss), None, c') \<and>
         ScanStruct P (flatten_pairs t v (ss_l ss)) (ptr t b) (\<sigma>', c') =
           Inr (if ss_l ss = [] then None else Some ScanStructKey, \<sigma>', c')"
  using assms structSpecForType_cached [OF assms(1)]
  by (simp add: AppendStruct_def ScanStruct_def ptr_def struct_not_pointer
        AppendStruct_loop_flatten flatten_pairs_even ScanStruct_loop_flatten)

theorem AppendStruct_then_ScanStruct_witness:
  "structSpecForType Map.empty Counter = Inr (Counter_spec, [Counter \<mapsto> Counter_spec]) \<and>
   Kind Counter = KStruct \<and>
   AppendStruct [] (ptr Counter 0) (Counter_five, Map.empty) =
     Inr ([Dyn stringT (VString ''A''), Dyn intT (VInt 5)], None, [Counter \<mapsto> Counter_spec]) \<and>
   ScanStruct P64 [Dyn stringT (VString ''A''), Dyn intT (VInt 5)] (ptr Counter 1)
       (Counter_zero, [Counter \<mapsto> Counter_spec]) =
     Inr (Some ScanStructKey, Counter_zero, [Counter \<mapsto> Counter_spec])"
proof -
  have k: "Kind Counter = KStruct" by (simp add: Counter_def)
  have f: "flatten_pairs Counter (VStruct [VInt 5]) (ss_l Counter_spec) =
      [Dyn stringT (VString ''A''), Dyn intT (VInt 5)]"
    by (simp add: flatten_pairs_def Counter_spec_def fieldA_def Counter_def Interface_def)
  show ?thesis
    using k f Counter_compiled
      AppendStruct_then_ScanStruct
        [OF Counter_compiled k, of 0 Counter_five "VStruct [VInt 5]" P64 1 Counter_zero]
    by (simp add: Counter_five_def Counter_spec_def)
qed

text \<open>
  C3 as stated fails on \<^verbatim>\<open>Counter{A: 5}\<close>: the flattened sequence is the string \<^verbatim>\<open>"A"\<close> and
  the int 5, and \<^verbatim>\<open>ScanStruct\<close> into a zeroed \<^verbatim>\<open>Counter\<close> returns the key error.
\<close>

theorem flatten_then_scan_counterexample:
  "AppendStruct [] (ptr Counter 0) (Counter_five, Map.empty) =
     Inr ([Dyn stringT (VString ''A''), Dyn intT (VInt 5)], None, [Counter \<mapsto> Counter_spec]) \<and>
   ScanStruct P64 [Dyn stringT (VString ''A''), Dyn intT (VInt 5)] (ptr Counter 1)
       (Counter_five(1 := zero Counter), [Counter \<mapsto> Counter_spec]) =
     Inr (Some ScanStructKey, Counter_five(1 := zero Counter), [Counter \<mapsto> Counter_spec])"
proof -
  have a: "AppendStruct [] (ptr Counter 0) (Counter_five, Map.empty) =
     Inr ([Dyn stringT (VString ''A''), Dyn intT (VInt 5)], None, [Counter \<mapsto> Counter_spec])"
    by (simp add: AppendStruct_def ptr_def Counter_compiled)
       (simp add: Counter_def Counter_spec_def fieldA_def Counter_five_def Interface_def)
  have b: "ScanStruct P64 [Dyn stringT (VString ''A''), Dyn intT (VInt 5)] (ptr Counter 1)
       (Counter_five(1 := zero Counter), [Counter \<mapsto> Counter_spec]) =
     Inr (Some ScanStructKey, Counter_five(1 := zero Counter), [Counter \<mapsto> Counter_spec])"
    by (simp add: ScanStruct_def ptr_def structSpecForType_def)
  from a b show ?thesis by simp
qed

text \<open>
  C7. A nil destination, a nil pointer and a struct passed by value get the
  must-be-pointer error and nothing is written; a pointer to an \<^verbatim>\<open>int\<close> gets no error:
  \<^verbatim>\<open>compileStructSpec\<close> calls \<^verbatim>\<open>NumField\<close> on the type \<^verbatim>\<open>int\<close> and panics.
\<close>

theorem ScanStruct_pointer_to_non_struct:
  "ScanStruct P src Null (\<sigma>, c) = Inr (Some ScanStructPointer, \<sigma>, c) \<and>
   ScanStruct P src (Dyn (PtrTo t) (VPtr None)) (\<sigma>, c) = Inr (Some ScanStructPointer, \<sigma>, c) \<and>
   ScanStruct P src (Dyn (StructOf n fs) v) (\<sigma>, c) = Inr (Some ScanStructPointer, \<sigma>, c) \<and>
   ScanStruct P src (ptr intT a) (\<sigma>, Map.empty) = Inl NumFieldOfNonStruct"
  by (simp add: ScanStruct_def as_pointer_def ptr_def structSpecForType_def)

text \<open>
  C2. For \<^verbatim>\<open>Outer\<close> the list of the compiled spec holds two entries named \<^verbatim>\<open>A\<close>, the
  embedded field first, while the map holds the outer field only; \<^verbatim>\<open>AppendStruct\<close> then
  emits the name twice.
\<close>

theorem compileStructSpec_keeps_shadowed_entry:
  "map_sum id (\<lambda>(ss, c). (ss_l ss, ss_m ss ''A'')) (structSpecForType Map.empty Outer) =
     Inr ([\<lparr>fs_name = ''A'', fs_index = [0, 0]\<rparr>, \<lparr>fs_name = ''A'', fs_index = [1]\<rparr>],
          Some \<lparr>fs_name = ''A'', fs_index = [1]\<rparr>) \<and>
   \<not> distinct (map fs_name [\<lparr>fs_name = ''A'', fs_index = [0, 0]\<rparr>, \<lparr>fs_name = ''A'', fs_index = [1]\<rparr>]) \<and>
   map_sum id fst
     (AppendStruct [] (Dyn Outer (VStruct [VStruct [VInt 1], VInt 2])) (sevens, Map.empty)) =
     Inr [Dyn stringT (VString ''A''), Dyn intT (VInt 1),
          Dyn stringT (VString ''A''), Dyn intT (VInt 2)]"
  by (simp add: structSpecForType_def AppendStruct_def as_pointer_def Outer_def Inner_def
        compileField_def Let_def Interface_def)

end
